theory Spec2Isabelle
  imports Complex_Main "HOL-Library.AList"
begin

section \<open>Values, errors and dictionaries\<close>

text \<open>
  The module \<^verbatim>\<open>apparun/impact_model.py\<close> moves parameter values around without ever
  computing on them. A parameter value is a \<^verbatim>\<open>str\<close> or a \<^verbatim>\<open>float\<close>, or a Python list
  of those; the only thing the code asks of a value is \<^verbatim>\<open>isinstance(parameter, list)\<close>.
  Floats are written as reals here: no arithmetic is done on them in this module.
\<close>

datatype scalar = Str string | Num real

datatype 'a batched = Single 'a | Batch "'a list"

type_synonym pvalue = "scalar batched"

text \<open>Every exception the module can raise, or let through from a collaborator.\<close>

datatype error =
    AssertionError
  | KeyError string
  | AttributeError
  | TypeError
  | IndexError
  | Raised string

text \<open>
  A Python \<^verbatim>\<open>dict\<close> keeps its keys in insertion order and holds each key once, so
  it is an association list with distinct keys. Assigning to a key that is present
  replaces the value where it stands; assigning to a new key appends it.
\<close>

type_synonym 'v dict = "(string \<times> 'v) list"

definition keys :: "'v dict \<Rightarrow> string list" where
  "keys d = map fst d"

definition dict_set :: "'v dict \<Rightarrow> string \<Rightarrow> 'v \<Rightarrow> 'v dict" where
  "dict_set d k v = AList.update k v d"

text \<open>\<^verbatim>\<open>d[k]\<close>, which raises \<^verbatim>\<open>KeyError\<close> on a missing key.\<close>

definition dict_get :: "'v dict \<Rightarrow> string \<Rightarrow> error + 'v" where
  "dict_get d k = (case map_of d k of None \<Rightarrow> Inl (KeyError k) | Some v \<Rightarrow> Inr v)"

text \<open>
  A dict comprehension \<^verbatim>\<open>{k: v for k, v in items}\<close>, and likewise a dict display
  \<^verbatim>\<open>{**a, **b}\<close> (the items of \<^verbatim>\<open>a\<close> followed by those of \<^verbatim>\<open>b\<close>): a new dict,
  filled by one assignment per item, left to right.
\<close>

definition dict_of_items :: "(string \<times> 'v) list \<Rightarrow> 'v dict" where
  "dict_of_items kvs = foldl (\<lambda>d (k, v). dict_set d k v) [] kvs"

text \<open>
  A list comprehension whose body may raise: the elements are evaluated from left to
  right and the first exception ends the whole comprehension.
\<close>

fun traverse :: "('a \<Rightarrow> error + 'b) \<Rightarrow> 'a list \<Rightarrow> error + 'b list" where
  "traverse f [] = Inr []"
| "traverse f (x # xs) =
     (case f x of
        Inl e \<Rightarrow> Inl e
      | Inr y \<Rightarrow> (case traverse f xs of Inl e \<Rightarrow> Inl e | Inr ys \<Rightarrow> Inr (y # ys)))"

section \<open>The objects of the impact model\<close>

text \<open>
  The classes \<^verbatim>\<open>ImpactModelParams\<close>, \<^verbatim>\<open>ImpactTreeNode\<close>, \<^verbatim>\<open>LCIAScores\<close> and
  \<^verbatim>\<open>NodeScores\<close> are imported by the module from sibling modules. What the module
  reads of them is kept as fields; their methods that the module calls are function
  fields (a method may raise, so each returns a sum) or are written out below from
  the specification, where a property depends on what they return.
\<close>

record lca_practitioner =
  practitioner_name :: "string option"
  organization :: "string option"
  mail :: "string option"

record lca_study =
  link :: "string option"
  description :: "string option"
  date :: "string option"
  version :: "string option"
  license :: "string option"
  appabuild_version :: "string option"

record model_metadata =
  author :: "lca_practitioner option"
  reviewer :: "lca_practitioner option"
  report :: "lca_study option"

text \<open>
  One parameter: \<^verbatim>\<open>parameter.name\<close>, its default value and \<^verbatim>\<open>parameter.transform\<close>,
  which takes a value or a list of values and returns a dict of transformed values.
  (\<open>default\<close> is a constant of HOL, hence \<open>default_value\<close>.)
\<close>

record impact_model_param =
  name :: string
  default_value :: scalar
  transform :: "pvalue \<Rightarrow> error + pvalue dict"

text \<open>The problem descriptor handed to the Sobol analysis.\<close>

record sobol_problem_descr =
  names :: "string list"
  bounds :: "(real \<times> real) list"

text \<open>
  The parameter collection: the parameters in the order in which iterating over the
  collection yields them, the two sampling methods and the \<^verbatim>\<open>sobol_problem\<close> property.
\<close>

record impact_model_params =
  parameters_list :: "impact_model_param list"
  sobol_draw :: "int \<Rightarrow> error + pvalue dict"
  draw_to_distrib :: "pvalue dict \<Rightarrow> error + pvalue dict"
  sobol_problem :: sobol_problem_descr

text \<open>
  A tree node. \<^verbatim>\<open>node.parent\<close> is a reference of which only \<^verbatim>\<open>.name\<close> is read, so
  the field holds the parent's name, or \<open>None\<close> for Python's \<^verbatim>\<open>None\<close>.
\<close>

datatype impact_tree_node =
  ImpactTreeNode
    (node_name: string)
    (properties: "(string \<times> string) list")
    (parent: "string option")
    (children: "impact_tree_node list")

record lcia_scores =
  scores :: "real batched dict"

record node_scores =
  ns_name :: string
  ns_properties :: "(string \<times> string) list"
  ns_parent :: string
  ns_lcia_scores :: lcia_scores

record impact_model =
  metadata :: "model_metadata option"
  parameters :: "impact_model_params option"
  tree :: "impact_tree_node option"

section \<open>The transform engine\<close>

text \<open>
  \<^verbatim>\<open>transformation_table\<close> is a property: each access builds the dict from
  \<^verbatim>\<open>self.parameters\<close>, and iterating over \<^verbatim>\<open>None\<close> raises \<^verbatim>\<open>TypeError\<close>.
\<close>

definition transformation_table ::
  "impact_model \<Rightarrow> error + (pvalue \<Rightarrow> error + pvalue dict) dict" where
  "transformation_table m =
     (case parameters m of
        None \<Rightarrow> Inl TypeError
      | Some P \<Rightarrow> Inr (dict_of_items (map (\<lambda>p. (name p, transform p)) (parameters_list P))))"

text \<open>
  \<^verbatim>\<open>list_parameters\<close> keeps the entries whose value is a list and
  \<^verbatim>\<open>single_parameters\<close> the others; the types record which kind each one holds.
  Both are dict comprehensions over \<^verbatim>\<open>parameters.items()\<close> with a filter.
\<close>

fun list_items :: "pvalue dict \<Rightarrow> (string \<times> scalar list) list" where
  "list_items [] = []"
| "list_items ((n, Batch xs) # ps) = (n, xs) # list_items ps"
| "list_items ((n, Single x) # ps) = list_items ps"

fun single_items :: "pvalue dict \<Rightarrow> (string \<times> scalar) list" where
  "single_items [] = []"
| "single_items ((n, Batch xs) # ps) = single_items ps"
| "single_items ((n, Single x) # ps) = (n, x) # single_items ps"

definition list_parameters :: "pvalue dict \<Rightarrow> scalar list dict" where
  "list_parameters ps = dict_of_items (list_items ps)"

definition single_parameters :: "pvalue dict \<Rightarrow> scalar dict" where
  "single_parameters ps = dict_of_items (single_items ps)"

text \<open>
  \<^verbatim>\<open>self.transformation_table[parameter_name](parameter_value)\<close>: the table is built,
  the name looked up (\<^verbatim>\<open>KeyError\<close> when it is not registered) and the transform
  called.
\<close>

definition apply_transform :: "impact_model \<Rightarrow> string \<times> pvalue \<Rightarrow> error + pvalue dict" where
  "apply_transform m = (\<lambda>(parameter_name, parameter_value).
     case transformation_table m of
       Inl e \<Rightarrow> Inl e
     | Inr table \<Rightarrow>
         (case dict_get table parameter_name of
            Inl e \<Rightarrow> Inl e
          | Inr f \<Rightarrow> f parameter_value))"

text \<open>
  The returned comprehension, lines 119 to 126 and again 138 to 145: the inner list
  of tables is built first, then every item of every table is assigned in turn.
\<close>

definition merge_transformed :: "impact_model \<Rightarrow> pvalue dict \<Rightarrow> error + pvalue dict" where
  "merge_transformed m ps =
     (case traverse (apply_transform m) ps of
        Inl e \<Rightarrow> Inl e
      | Inr tables \<Rightarrow> Inr (dict_of_items (concat tables)))"

text \<open>
  \<^verbatim>\<open>full_list_parameters\<close>, lines 130 to 137, given the length of the first list:
  each single value becomes \<^verbatim>\<open>[parameter_value] * n\<close>, and the lists follow.
\<close>

definition full_list_parameters :: "nat \<Rightarrow> scalar dict \<Rightarrow> scalar list dict \<Rightarrow> pvalue dict" where
  "full_list_parameters n sp lp =
     dict_of_items
       (map (\<lambda>(parameter_name, parameter_value). (parameter_name, Batch (replicate n parameter_value))) sp
        @ map (\<lambda>(parameter_name, xs). (parameter_name, Batch xs)) lp)"

text \<open>
  \<^verbatim>\<open>transform_parameters\<close>. With no list among the values the input itself is
  transformed. Otherwise \<^verbatim>\<open>list_parameters\<close> is not empty, so \<^verbatim>\<open>min\<close>, \<^verbatim>\<open>max\<close>
  and \<^verbatim>\<open>list(list_parameters.values())[0]\<close> are defined; the \<^verbatim>\<open>assert\<close> compares the
  smallest and the largest length (assertions are taken as enabled, the
  interpreter's default).
\<close>

definition transform_parameters :: "impact_model \<Rightarrow> pvalue dict \<Rightarrow> error + pvalue dict" where
  "transform_parameters m ps =
     (let lp = list_parameters ps; sp = single_parameters ps in
      case lp of
        [] \<Rightarrow> merge_transformed m ps
      | (_, first) # rest \<Rightarrow>
          if fold min (map (\<lambda>(_, xs). length xs) rest) (length first)
             \<noteq> fold max (map (\<lambda>(_, xs). length xs) rest) (length first)
          then Inl AssertionError
          else merge_transformed m (full_list_parameters (length first) sp lp))"

section \<open>Collaborators\<close>

text \<open>
  Methods of other modules and of the SALib library that the module calls:
  \<^verbatim>\<open>node.compute(transformed_params, direct_impacts=...)\<close>, where the flag is \<open>None\<close>
  when the caller leaves the argument out; \<^verbatim>\<open>NodeScores.combine_by_property\<close>; and
  \<^verbatim>\<open>sobol.analyze(problem, Y, calc_second_order=...)["S1"]\<close>, of whose result only
  the \<^verbatim>\<open>"S1"\<close> array is read. They are parameters of the model.
\<close>

record collaborators =
  compute :: "impact_tree_node \<Rightarrow> pvalue dict \<Rightarrow> bool option \<Rightarrow> error + lcia_scores"
  combine_by_property :: "node_scores list \<Rightarrow> string \<Rightarrow> error + node_scores list"
  analyze :: "sobol_problem_descr \<Rightarrow> real batched \<Rightarrow> bool \<Rightarrow> error + real list"

text \<open>
  Modelled from the spec: \<^verbatim>\<open>ImpactModelParams.get_missing_parameter_names\<close> is
  defined in \<^verbatim>\<open>apparun/parameters.py\<close>. The specification has it "determine which
  declared parameters are absent from caller input": the declared names, in the
  collection's order, that are not keys of the given dict.
\<close>

definition get_missing_parameter_names :: "impact_model_params \<Rightarrow> pvalue dict \<Rightarrow> string list" where
  "get_missing_parameter_names P params =
     filter (\<lambda>n. n \<notin> set (keys params)) (map name (parameters_list P))"

text \<open>
  Modelled from the spec: \<^verbatim>\<open>ImpactModelParams.get_default_values\<close> is defined in
  \<^verbatim>\<open>apparun/parameters.py\<close>. The specification has it return "default values for a
  name-set": a dict from each declared parameter whose name is in the given list to
  that parameter's default value.
\<close>

definition get_default_values :: "impact_model_params \<Rightarrow> string list \<Rightarrow> pvalue dict" where
  "get_default_values P parameter_names =
     dict_of_items
       (map (\<lambda>p. (name p, Single (default_value p)))
          (filter (\<lambda>p. name p \<in> set parameter_names) (parameters_list P)))"

text \<open>
  Modelled from the spec: \<^verbatim>\<open>ImpactTreeNode.unnested_descendants\<close> is defined in
  \<^verbatim>\<open>apparun/impact_tree.py\<close>. The specification has it yield "every node in the tree
  (flattened, no nested duplication)": the node itself, then the nodes of each
  child's subtree in turn.
\<close>

fun unnested_descendants :: "impact_tree_node \<Rightarrow> impact_tree_node list" where
  "unnested_descendants (ImpactTreeNode n props par cs) =
     ImpactTreeNode n props par cs # concat (map unnested_descendants cs)"

text \<open>The number of nodes of a tree.\<close>

fun count_nodes :: "impact_tree_node \<Rightarrow> nat" where
  "count_nodes (ImpactTreeNode n props par cs) = Suc (sum_list (map count_nodes cs))"

section \<open>The score orchestrator\<close>

text \<open>
  Lines 217 to 219 and 237 to 239: the missing names, their defaults and the dict
  display \<^verbatim>\<open>{**params, **default_params}\<close> handed to \<^verbatim>\<open>transform_parameters\<close>.
\<close>

definition merged_parameters :: "impact_model_params \<Rightarrow> pvalue dict \<Rightarrow> pvalue dict" where
  "merged_parameters P params =
     (let missing_params = get_missing_parameter_names P params;
          default_params = get_default_values P missing_params
      in dict_of_items (params @ default_params))"

text \<open>
  \<^verbatim>\<open>get_scores(**params)\<close>. A method call on \<^verbatim>\<open>None\<close> raises \<^verbatim>\<open>AttributeError\<close>.
\<close>

definition get_scores :: "collaborators \<Rightarrow> impact_model \<Rightarrow> pvalue dict \<Rightarrow> error + lcia_scores" where
  "get_scores env m params =
     (case parameters m of
        None \<Rightarrow> Inl AttributeError
      | Some P \<Rightarrow>
          (case transform_parameters m (merged_parameters P params) of
             Inl e \<Rightarrow> Inl e
           | Inr transformed_params \<Rightarrow>
               (case tree m of
                  None \<Rightarrow> Inl AttributeError
                | Some t \<Rightarrow> compute env t transformed_params None)))"

text \<open>The \<^verbatim>\<open>NodeScores(...)\<close> built for one node, lines 241 to 248.\<close>

definition node_record ::
  "collaborators \<Rightarrow> pvalue dict \<Rightarrow> string option \<Rightarrow> impact_tree_node \<Rightarrow> error + node_scores" where
  "node_record env transformed_params by_property node =
     (case compute env node transformed_params (Some (by_property \<noteq> None)) of
        Inl e \<Rightarrow> Inl e
      | Inr sc \<Rightarrow>
          Inr \<lparr>ns_name = node_name node,
               ns_properties = properties node,
               ns_parent = (case parent node of None \<Rightarrow> '''' | Some p \<Rightarrow> p),
               ns_lcia_scores = sc\<rparr>)"

text \<open>\<^verbatim>\<open>get_nodes_scores(by_property=None, **params)\<close>.\<close>

definition get_nodes_scores ::
  "collaborators \<Rightarrow> impact_model \<Rightarrow> string option \<Rightarrow> pvalue dict \<Rightarrow> error + node_scores list" where
  "get_nodes_scores env m by_property params =
     (case parameters m of
        None \<Rightarrow> Inl AttributeError
      | Some P \<Rightarrow>
          (case transform_parameters m (merged_parameters P params) of
             Inl e \<Rightarrow> Inl e
           | Inr transformed_params \<Rightarrow>
               (case tree m of
                  None \<Rightarrow> Inl AttributeError
                | Some t \<Rightarrow>
                    (case traverse (node_record env transformed_params by_property)
                            (unnested_descendants t) of
                       Inl e \<Rightarrow> Inl e
                     | Inr node_scores_list \<Rightarrow>
                         (case by_property of
                            None \<Rightarrow> Inr node_scores_list
                          | Some prop \<Rightarrow> combine_by_property env node_scores_list prop)))))"

section \<open>The sensitivity analyzer\<close>

text \<open>
  One emitted dict, with its keys \<^verbatim>\<open>"node"\<close>, \<^verbatim>\<open>"method"\<close>, \<^verbatim>\<open>"parameter"\<close> and
  \<^verbatim>\<open>"sobol_s1"\<close> (\<open>method\<close> is a keyword of Isabelle, hence \<open>method_name\<close>).
\<close>

record sobol_record =
  node :: string
  method_name :: string
  parameter :: string
  sobol_s1 :: real

text \<open>
  The body of the loop over \<^verbatim>\<open>scores.items()\<close>, lines 288 to 301 and 306 to 317:
  one call of the analysis, then one dict per index of \<^verbatim>\<open>s1\<close>. Reading
  \<^verbatim>\<open>sobol_problem["names"][i]\<close> past the end of the names raises \<^verbatim>\<open>IndexError\<close>.
\<close>

definition s1_records ::
  "collaborators \<Rightarrow> impact_model_params \<Rightarrow> string \<Rightarrow> string \<times> real batched \<Rightarrow> error + sobol_record list" where
  "s1_records env P node_nm = (\<lambda>(meth, sc).
     case analyze env (sobol_problem P) sc True of
       Inl e \<Rightarrow> Inl e
     | Inr s1 \<Rightarrow>
         traverse
           (\<lambda>i. if i < length (names (sobol_problem P))
                then Inr \<lparr>node = node_nm, method_name = meth,
                          parameter = names (sobol_problem P) ! i, sobol_s1 = s1 ! i\<rparr>
                else Inl IndexError)
           [0..<length s1])"

text \<open>The records of one unit of analysis: the loop over its score collection.\<close>

definition unit_records ::
  "collaborators \<Rightarrow> impact_model_params \<Rightarrow> string \<Rightarrow> lcia_scores \<Rightarrow> error + sobol_record list" where
  "unit_records env P node_nm lcia =
     (case traverse (s1_records env P node_nm) (scores lcia) of
        Inl e \<Rightarrow> Inl e
      | Inr rs \<Rightarrow> Inr (concat rs))"

text \<open>
  \<^verbatim>\<open>get_sobol_s1_indices(n, all_nodes=False)\<close>. The samples are passed on as keyword
  arguments; parameter names are taken not to be \<^verbatim>\<open>self\<close> or \<^verbatim>\<open>by_property\<close>, the
  two names that \<^verbatim>\<open>get_nodes_scores\<close> binds itself.
\<close>

definition get_sobol_s1_indices ::
  "collaborators \<Rightarrow> impact_model \<Rightarrow> int \<Rightarrow> bool \<Rightarrow> error + sobol_record list" where
  "get_sobol_s1_indices env m n all_nodes =
     (case parameters m of
        None \<Rightarrow> Inl AttributeError
      | Some P \<Rightarrow>
          (case sobol_draw P n of
             Inl e \<Rightarrow> Inl e
           | Inr drawn \<Rightarrow>
               (case draw_to_distrib P drawn of
                  Inl e \<Rightarrow> Inl e
                | Inr samples \<Rightarrow>
                    if all_nodes then
                      (case get_nodes_scores env m None samples of
                         Inl e \<Rightarrow> Inl e
                       | Inr lcia \<Rightarrow>
                           (case traverse
                                   (\<lambda>ns. unit_records env P (ns_name ns) (ns_lcia_scores ns))
                                   lcia of
                              Inl e \<Rightarrow> Inl e
                            | Inr rss \<Rightarrow> Inr (concat rss)))
                    else
                      (case get_scores env m samples of
                         Inl e \<Rightarrow> Inl e
                       | Inr lcia \<Rightarrow>
                           (case tree m of
                              None \<Rightarrow> Inl AttributeError
                            | Some t \<Rightarrow> unit_records env P (node_name t) lcia)))))"

section \<open>The transform engine over a store of dict objects\<close>

text \<open>
  To speak of mutation, the dicts that \<^verbatim>\<open>transform_parameters\<close> reads and builds
  are placed in a store: a list of dict objects, each addressed by its index. The
  method receives the address of its argument and returns the address of its result.
  Every comprehension of the method allocates a new dict; the method has no
  assignment to a key or a field of an existing object. Transforms are functions of
  the value they are given. Lists are held by value.
\<close>

record py_state =
  self_fields :: impact_model
  dict_heap :: "pvalue dict list"

definition new_dict :: "py_state \<Rightarrow> pvalue dict \<Rightarrow> py_state" where
  "new_dict s d = s\<lparr>dict_heap := dict_heap s @ [d]\<rparr>"

text \<open>Returning a dict that was just built: it is allocated, and its address returned.\<close>

definition return_new :: "py_state \<Rightarrow> error + pvalue dict \<Rightarrow> py_state \<times> (error + nat)" where
  "return_new s r =
     (case r of
        Inl e \<Rightarrow> (s, Inl e)
      | Inr d \<Rightarrow> (new_dict s d, Inr (length (dict_heap s))))"

definition transform_parameters_st :: "py_state \<Rightarrow> nat \<Rightarrow> py_state \<times> (error + nat)" where
  "transform_parameters_st s a =
     (let ps = dict_heap s ! a;
          lp = list_parameters ps;
          s1 = new_dict s (map (\<lambda>(n, xs). (n, Batch xs)) lp);
          sp = single_parameters ps;
          s2 = new_dict s1 (map (\<lambda>(n, x). (n, Single x)) sp)
      in case lp of
           [] \<Rightarrow> return_new s2 (merge_transformed (self_fields s2) ps)
         | (_, first) # rest \<Rightarrow>
             if fold min (map (\<lambda>(_, xs). length xs) rest) (length first)
                \<noteq> fold max (map (\<lambda>(_, xs). length xs) rest) (length first)
             then (s2, Inl AssertionError)
             else
               (let full = full_list_parameters (length first) sp lp;
                    s3 = new_dict s2 full
                in return_new s3 (merge_transformed (self_fields s3) full)))"

section \<open>A sample model\<close>

text \<open>
  The two-parameter model of the specification's end-to-end scenario, used to run
  the definitions on concrete inputs: \<open>p1\<close> is a number whose transform returns it
  under its own name, \<open>p2\<close> is one of \<open>a\<close> and \<open>b\<close> whose transform returns one
  indicator per option. The tree has a root and two leaves; a node's score is the
  transformed \<open>p1\<close>. The sample analysis reports one estimate per name of the problem.
\<close>

definition float_transform :: "string \<Rightarrow> pvalue \<Rightarrow> error + pvalue dict" where
  "float_transform nm v = Inr [(nm, v)]"

definition indicator :: "string \<Rightarrow> scalar \<Rightarrow> scalar" where
  "indicator opt x = Num (if x = Str opt then 1 else 0)"

definition enum_transform :: "string \<Rightarrow> string list \<Rightarrow> pvalue \<Rightarrow> error + pvalue dict" where
  "enum_transform nm opts v =
     Inr (map (\<lambda>opt. (nm @ ''_'' @ opt,
                      (case v of
                         Single x \<Rightarrow> Single (indicator opt x)
                       | Batch xs \<Rightarrow> Batch (map (indicator opt) xs))))
            opts)"

definition sample_params :: impact_model_params where
  "sample_params =
     \<lparr>parameters_list =
        [\<lparr>name = ''p1'', default_value = Num 5, transform = float_transform ''p1''\<rparr>,
         \<lparr>name = ''p2'', default_value = Str ''a'', transform = enum_transform ''p2'' [''a'', ''b'']\<rparr>],
      sobol_draw = (\<lambda>n. Inr [(''p1'', Batch (replicate (nat (6 * n)) (Num 1))),
                              (''p2'', Batch (replicate (nat (6 * n)) (Num 0)))]),
      draw_to_distrib = (\<lambda>d. Inr (map (\<lambda>(k, v). if k = ''p2''
          then (k, (case v of Batch xs \<Rightarrow> Batch (map (\<lambda>_. Str ''a'') xs) | Single _ \<Rightarrow> Single (Str ''a'')))
          else (k, v)) d)),
      sobol_problem = \<lparr>names = [''p1'', ''p2''], bounds = [(0, 10), (0, 1)]\<rparr>\<rparr>"

definition sample_tree :: impact_tree_node where
  "sample_tree =
     ImpactTreeNode ''fu'' [(''phase'', ''all'')] None
       [ImpactTreeNode ''c1'' [(''phase'', ''use'')] (Some ''fu'') [],
        ImpactTreeNode ''c2'' [(''phase'', ''use'')] (Some ''fu'') []]"

definition sample_model :: impact_model where
  "sample_model = \<lparr>metadata = None, parameters = Some sample_params, tree = Some sample_tree\<rparr>"

definition score_of :: "scalar \<Rightarrow> real" where
  "score_of x = (case x of Num r \<Rightarrow> r | Str _ \<Rightarrow> 0)"

definition sample_env :: collaborators where
  "sample_env =
     \<lparr>compute = (\<lambda>nd tp direct.
        case map_of tp ''p1'' of
          None \<Rightarrow> Inl (KeyError ''p1'')
        | Some (Single x) \<Rightarrow> Inr \<lparr>scores = [(''GWP'', Single (score_of x))]\<rparr>
        | Some (Batch xs) \<Rightarrow> Inr \<lparr>scores = [(''GWP'', Batch (map score_of xs))]\<rparr>),
      combine_by_property = (\<lambda>recs prop. Inr (take 1 recs)),
      analyze = (\<lambda>problem y second. Inr (map (\<lambda>_. - 1 / 100) (names problem)))\<rparr>"

section \<open>Facts about dictionaries and comprehensions\<close>

lemma foldl_dict_set_map_of:
  "map_of (foldl (\<lambda>d (k, v). dict_set d k v) acc kvs) = map_of acc ++ map_of (rev kvs)"
proof (induction kvs arbitrary: acc)
  case Nil
  then show ?case by simp
next
  case (Cons kv kvs)
  obtain k v where kv: "kv = (k, v)" by (cases kv)
  have "map_of (dict_set acc k v) = (map_of acc)(k \<mapsto> v)"
    by (simp add: dict_set_def update_conv')
  then show ?case
    using Cons.IH [of "dict_set acc k v"] by (simp add: kv map_add_upd_left fun_eq_iff map_add_def split: option.splits)
qed

lemma map_of_dict_of_items: "map_of (dict_of_items kvs) = map_of (rev kvs)"
  by (simp add: dict_of_items_def foldl_dict_set_map_of)

lemma foldl_dict_set_keys:
  "set (map fst (foldl (\<lambda>d (k, v). dict_set d k v) acc kvs)) = fst ` set acc \<union> fst ` set kvs"
proof (induction kvs arbitrary: acc)
  case Nil
  then show ?case by simp
next
  case (Cons kv kvs)
  obtain k v where kv: "kv = (k, v)" by (cases kv)
  have "fst ` set (dict_set acc k v) = insert k (fst ` set acc)"
    using dom_update [of k v acc] by (simp add: dict_set_def dom_map_of_conv_image_fst)
  then show ?case
    using Cons.IH [of "dict_set acc k v"] by (auto simp: kv)
qed

lemma keys_dict_of_items: "set (keys (dict_of_items kvs)) = fst ` set kvs"
  using foldl_dict_set_keys [of "[]" kvs] by (simp add: dict_of_items_def keys_def)

lemma foldl_dict_set_distinct:
  "distinct (map fst acc) \<Longrightarrow> distinct (map fst (foldl (\<lambda>d (k, v). dict_set d k v) acc kvs))"
proof (induction kvs arbitrary: acc)
  case Nil
  then show ?case by simp
next
  case (Cons kv kvs)
  obtain k v where kv: "kv = (k, v)" by (cases kv)
  show ?case using Cons.IH [of "dict_set acc k v"] Cons.prems
    by (simp add: kv dict_set_def distinct_update)
qed

lemma distinct_dict_of_items: "distinct (keys (dict_of_items kvs))"
  by (simp add: dict_of_items_def keys_def foldl_dict_set_distinct)

lemma foldl_dict_set_append:
  "distinct (map fst (acc @ kvs)) \<Longrightarrow> foldl (\<lambda>d (k, v). dict_set d k v) acc kvs = acc @ kvs"
proof (induction kvs arbitrary: acc)
  case Nil
  then show ?case by simp
next
  case (Cons kv kvs)
  obtain k v where kv: "kv = (k, v)" by (cases kv)
  from Cons.prems have nk: "k \<notin> fst ` set acc" by (auto simp: kv)
  have "dict_set acc k v = acc @ [(k, v)]"
    using nk unfolding dict_set_def by (induction acc) auto
  moreover have "distinct (map fst ((acc @ [(k, v)]) @ kvs))" using Cons.prems by (simp add: kv)
  ultimately show ?case using Cons.IH [of "acc @ [(k, v)]"] by (simp add: kv)
qed

lemma dict_of_items_distinct: "distinct (map fst kvs) \<Longrightarrow> dict_of_items kvs = kvs"
  using foldl_dict_set_append [of "[]" kvs] by (simp add: dict_of_items_def)

lemma set_dict_set: "set (dict_set d k v) \<subseteq> insert (k, v) (set d)"
  unfolding dict_set_def by (induction d) auto

lemma foldl_dict_set_subset:
  "set (foldl (\<lambda>d (k, v). dict_set d k v) acc kvs) \<subseteq> set acc \<union> set kvs"
proof (induction kvs arbitrary: acc)
  case Nil
  then show ?case by simp
next
  case (Cons kv kvs)
  obtain k v where kv: "kv = (k, v)" by (cases kv)
  show ?case using Cons.IH [of "dict_set acc k v"] set_dict_set [of acc k v]
    by (auto simp: kv)
qed

lemma set_dict_of_items: "set (dict_of_items kvs) \<subseteq> set kvs"
  using foldl_dict_set_subset [of "[]" kvs] by (simp add: dict_of_items_def)

lemma traverse_Inr_iff: "traverse f xs = Inr ys \<longleftrightarrow> map f xs = map Inr ys"
proof (induction xs arbitrary: ys)
  case Nil
  then show ?case by auto
next
  case (Cons x xs)
  show ?case
  proof (cases "f x")
    case (Inl e)
    then show ?thesis by (cases ys) auto
  next
    case (Inr y)
    show ?thesis
    proof (cases "traverse f xs")
      case (Inl e)
      with Cons.IH have "\<And>zs. map f xs \<noteq> map Inr zs" by auto
      with Inl Inr show ?thesis by (cases ys) auto
    next
      case (Inr zs)
      with Cons.IH [of zs] have "map f xs = map Inr zs" by simp
      with Inr \<open>f x = Inr y\<close> show ?thesis by (cases ys) (auto dest: map_inj_on)
    qed
  qed
qed

lemma traverse_Inl: "x \<in> set xs \<Longrightarrow> f x = Inl e \<Longrightarrow> \<exists>e'. traverse f xs = Inl e'"
  by (induction xs) (auto split: sum.splits)

lemma fold_min_le: "y \<in> set (x # xs) \<Longrightarrow> fold min xs x \<le> (y::nat)"
  using Min_le [of "set (x # xs)" y] by (simp add: Min.set_eq_fold del: set_simps)

lemma fold_max_ge: "y \<in> set (x # xs) \<Longrightarrow> (y::nat) \<le> fold max xs x"
  using Max_ge [of "set (x # xs)" y] by (simp add: Max.set_eq_fold del: set_simps)

lemma fold_min_max_const: "\<forall>y \<in> set xs. y = (x::nat) \<Longrightarrow> fold min xs x = x \<and> fold max xs x = x"
  by (induction xs) auto

lemma set_list_items: "set (list_items ps) = {(n, xs). (n, Batch xs) \<in> set ps}"
  by (induction ps rule: list_items.induct) auto

lemma set_single_items: "set (single_items ps) = {(n, x). (n, Single x) \<in> set ps}"
  by (induction ps rule: single_items.induct) auto

lemma distinct_list_items: "distinct (map fst ps) \<Longrightarrow> distinct (map fst (list_items ps))"
  by (induction ps rule: list_items.induct) (force simp: set_list_items)+

lemma distinct_single_items: "distinct (map fst ps) \<Longrightarrow> distinct (map fst (single_items ps))"
  by (induction ps rule: single_items.induct) (force simp: set_single_items)+

lemma list_parameters_distinct:
  "distinct (keys ps) \<Longrightarrow> list_parameters ps = list_items ps"
  by (simp add: list_parameters_def keys_def dict_of_items_distinct distinct_list_items)

lemma single_parameters_distinct:
  "distinct (keys ps) \<Longrightarrow> single_parameters ps = single_items ps"
  by (simp add: single_parameters_def keys_def dict_of_items_distinct distinct_single_items)

lemma set_list_parameters_subset:
  "(n, xs) \<in> set (list_parameters ps) \<Longrightarrow> (n, Batch xs) \<in> set ps"
  using set_dict_of_items [of "list_items ps"] by (auto simp: list_parameters_def set_list_items)

lemma set_single_parameters_subset:
  "(n, x) \<in> set (single_parameters ps) \<Longrightarrow> (n, Single x) \<in> set ps"
  using set_dict_of_items [of "single_items ps"] by (auto simp: single_parameters_def set_single_items)

lemma keys_list_parameters:
  "set (keys (list_parameters ps)) = {n. \<exists>xs. (n, Batch xs) \<in> set ps}"
  unfolding list_parameters_def keys_dict_of_items by (force simp: set_list_items)

lemma keys_single_parameters:
  "set (keys (single_parameters ps)) = {n. \<exists>x. (n, Single x) \<in> set ps}"
  unfolding single_parameters_def keys_dict_of_items by (force simp: set_single_items)

lemma list_parameters_Nil_iff:
  "list_parameters ps = [] \<longleftrightarrow> (\<forall>n xs. (n, Batch xs) \<notin> set ps)"
  using keys_list_parameters [of ps] by (auto simp: keys_def)

section \<open>Facts about the transform engine\<close>

lemma common_length_branch:
  assumes "(n0, Batch xs0) \<in> set ps"
    and "\<forall>n xs. (n, Batch xs) \<in> set ps \<longrightarrow> length xs = L"
  shows "transform_parameters m ps =
         merge_transformed m (full_list_parameters L (single_parameters ps) (list_parameters ps))"
proof -
  from assms(1) have "list_parameters ps \<noteq> []"
    by (auto simp: list_parameters_Nil_iff)
  then obtain k first rest where lp: "list_parameters ps = (k, first) # rest"
    by (cases "list_parameters ps") auto
  have len: "\<And>n xs. (n, xs) \<in> set (list_parameters ps) \<Longrightarrow> length xs = L"
    using assms(2) set_list_parameters_subset by blast
  have first: "length first = L" using len [of k first] by (simp add: lp)
  have "\<forall>y \<in> set (map (\<lambda>(_, xs). length xs) rest). y = length first"
    using len first by (auto simp: lp)
  from fold_min_max_const [OF this] show ?thesis
    by (simp add: transform_parameters_def lp [symmetric] first) (simp add: lp first)
qed

lemma unequal_lengths_branch:
  assumes "distinct (keys ps)"
    and "(a, Batch xs) \<in> set ps" and "(b, Batch ys) \<in> set ps"
    and "length xs \<noteq> length ys"
  shows "transform_parameters m ps = Inl AssertionError"
proof -
  have lp_eq: "list_parameters ps = list_items ps"
    using assms(1) by (rule list_parameters_distinct)
  have a: "(a, xs) \<in> set (list_parameters ps)" and b: "(b, ys) \<in> set (list_parameters ps)"
    using assms(2,3) by (auto simp: lp_eq set_list_items)
  then obtain k first rest where lp: "list_parameters ps = (k, first) # rest"
    by (cases "list_parameters ps") auto
  let ?lens = "map (\<lambda>(_, xs). length xs) rest"
  have "length xs \<in> set (length first # ?lens)" "length ys \<in> set (length first # ?lens)"
    using a b by (force simp: lp)+
  note mem = this
  note fold_min_le [OF mem(1)] fold_max_ge [OF mem(1)] fold_min_le [OF mem(2)] fold_max_ge [OF mem(2)]
  with assms(4) have "fold min ?lens (length first) \<noteq> fold max ?lens (length first)"
    by linarith
  then show ?thesis
    by (simp add: transform_parameters_def lp)
qed

lemma eq_key_same_value:
  "distinct (map fst ps) \<Longrightarrow> (k, v) \<in> set ps \<Longrightarrow> (k, w) \<in> set ps \<Longrightarrow> v = w"
  by (metis map_of_is_SomeI option.inject)

lemma full_list_parameters_distinct:
  assumes "distinct (keys ps)"
  shows "full_list_parameters L (single_parameters ps) (list_parameters ps) =
         map (\<lambda>(n, x). (n, Batch (replicate L x))) (single_items ps)
         @ map (\<lambda>(n, xs). (n, Batch xs)) (list_items ps)"
proof -
  from assms have d: "distinct (map fst ps)" by (simp add: keys_def)
  have fst1: "map fst (map (\<lambda>(n, x). (n, Batch (replicate L x))) (single_items ps)) = map fst (single_items ps)"
    by (simp add: case_prod_unfold comp_def)
  have fst2: "map fst (map (\<lambda>(n, xs). (n, Batch xs)) (list_items ps)) = map fst (list_items ps)"
    by (simp add: case_prod_unfold comp_def)
  have disj: "fst ` set (single_items ps) \<inter> fst ` set (list_items ps) = {}"
  proof (rule ccontr)
    assume "fst ` set (single_items ps) \<inter> fst ` set (list_items ps) \<noteq> {}"
    then obtain n x xs where "(n, Single x) \<in> set ps" "(n, Batch xs) \<in> set ps"
      by (auto simp: set_single_items set_list_items)
    with eq_key_same_value [OF d] have "Single x = Batch xs" by blast
    then show False by simp
  qed
  have "distinct (map fst (map (\<lambda>(n, x). (n, Batch (replicate L x))) (single_items ps)
         @ map (\<lambda>(n, xs). (n, Batch xs)) (list_items ps)))"
    using disj distinct_single_items [OF d] distinct_list_items [OF d]
    by (simp only: map_append distinct_append fst1 fst2 set_map)
  then show ?thesis
    by (simp add: full_list_parameters_def single_parameters_distinct [OF assms]
        list_parameters_distinct [OF assms] dict_of_items_distinct)
qed

lemma full_list_parameters_single:
  assumes "distinct (keys ps)" and "(n, Single x) \<in> set ps"
  shows "map_of (full_list_parameters L (single_parameters ps) (list_parameters ps)) n
         = Some (Batch (replicate L x))"
proof -
  from assms(1) have d: "distinct (map fst ps)" by (simp add: keys_def)
  have nl: "n \<notin> fst ` set (list_items ps)"
  proof
    assume "n \<in> fst ` set (list_items ps)"
    then obtain xs where "(n, Batch xs) \<in> set ps" by (auto simp: set_list_items)
    with eq_key_same_value [OF d assms(2)] show False by auto
  qed
  have "(n, x) \<in> set (single_items ps)" using assms(2) by (simp add: set_single_items)
  then have "map_of (single_items ps) n = Some x"
    using distinct_single_items [OF d] by (simp add: map_of_is_SomeI)
  then have "map_of (map (\<lambda>(n, x). (n, Batch (replicate L x))) (single_items ps)) n
             = Some (Batch (replicate L x))"
    by (simp add: map_of_map)
  then show ?thesis
    using nl by (simp add: full_list_parameters_distinct [OF assms(1)] map_add_Some_iff
        map_of_eq_None_iff image_image case_prod_unfold)
qed


lemma apply_transform_registered:
  assumes "apply_transform m (pn, pv) = Inr out" and "parameters m = Some P"
  shows "\<exists>p \<in> set (parameters_list P). name p = pn \<and> transform p pv = Inr out"
proof -
  let ?table = "dict_of_items (map (\<lambda>p. (name p, transform p)) (parameters_list P))"
  from assms obtain f where f: "map_of ?table pn = Some f" "f pv = Inr out"
    by (auto simp: apply_transform_def transformation_table_def dict_get_def split: option.splits)
  then have "(pn, f) \<in> set ?table" by (simp add: map_of_SomeD)
  with set_dict_of_items have "(pn, f) \<in> set (map (\<lambda>p. (name p, transform p)) (parameters_list P))"
    by blast
  with f(2) show ?thesis by auto
qed

lemma apply_transform_unregistered:
  assumes "parameters m = Some P" and "pn \<notin> name ` set (parameters_list P)"
  shows "apply_transform m (pn, pv) = Inl (KeyError pn)"
proof -
  let ?table = "dict_of_items (map (\<lambda>p. (name p, transform p)) (parameters_list P))"
  have "pn \<notin> set (keys ?table)"
    using assms(2) by (simp add: keys_dict_of_items image_image)
  then have "map_of ?table pn = None"
    by (simp add: keys_def map_of_eq_None_iff)
  then show ?thesis
    using assms(1) by (simp add: apply_transform_def transformation_table_def dict_get_def)
qed


lemma keys_full_list_parameters:
  "set (keys (full_list_parameters L (single_parameters ps) (list_parameters ps))) = set (keys ps)"
proof -
  have "set (keys ps) = {n. \<exists>x. (n, Single x) \<in> set ps} \<union> {n. \<exists>xs. (n, Batch xs) \<in> set ps}"
  proof -
    have "\<And>n v. (n, v) \<in> set ps \<Longrightarrow> (\<exists>x. (n, Single x) \<in> set ps) \<or> (\<exists>xs. (n, Batch xs) \<in> set ps)"
      by (metis batched.exhaust)
    then show ?thesis by (force simp: keys_def)
  qed
  moreover have "set (keys (full_list_parameters L (single_parameters ps) (list_parameters ps)))
      = set (keys (single_parameters ps)) \<union> set (keys (list_parameters ps))"
    unfolding full_list_parameters_def keys_dict_of_items
    by (simp add: keys_def image_Un image_image case_prod_unfold)
  ultimately show ?thesis
    by (simp add: keys_single_parameters keys_list_parameters)
qed

lemma map_of_rev_concat_last:
  assumes "i < length ts" and "map_of (ts ! i) k = Some v" and "distinct (map fst (ts ! i))"
    and "\<forall>j. i < j \<and> j < length ts \<longrightarrow> k \<notin> fst ` set (ts ! j)"
  shows "map_of (rev (concat ts)) k = Some v"
proof -
  let ?A = "concat (take i ts)" and ?C = "concat (drop (Suc i) ts)"
  have ts: "ts = take i ts @ ts ! i # drop (Suc i) ts"
    using assms(1) by (rule id_take_nth_drop)
  have "concat ts = ?A @ ts ! i @ ?C"
    by (subst ts) simp
  then have rv: "rev (concat ts) = rev ?C @ rev (ts ! i) @ rev ?A" by simp
  have "k \<notin> fst ` set ?C"
  proof
    assume "k \<in> fst ` set ?C"
    then obtain t where t: "t \<in> set (drop (Suc i) ts)" "k \<in> fst ` set t" by auto
    then obtain j where "j < length (drop (Suc i) ts)" "t = drop (Suc i) ts ! j"
      by (metis in_set_conv_nth)
    then have "Suc i + j < length ts" "t = ts ! (Suc i + j)" by auto
    with assms(4) t(2) show False by auto
  qed
  then have c: "map_of (rev ?C) k = None" by (simp add: map_of_eq_None_iff)
  have "(k, v) \<in> set (rev (ts ! i))" using assms(2) by (simp add: map_of_SomeD)
  moreover have "distinct (map fst (rev (ts ! i)))" using assms(3) by (simp add: rev_map [symmetric])
  ultimately have b: "map_of (rev (ts ! i)) k = Some v" by (rule map_of_is_SomeI [rotated])
  show ?thesis
    by (simp add: rv map_add_def c b)
qed

lemma merge_transformed_unregistered:
  assumes "parameters m = Some P" and "k \<in> set (keys qs)" and "k \<notin> name ` set (parameters_list P)"
  shows "\<exists>e. merge_transformed m qs = Inl e"
proof -
  from assms(2) obtain v where kv: "(k, v) \<in> set qs" by (auto simp: keys_def)
  have "apply_transform m (k, v) = Inl (KeyError k)"
    using assms(1,3) by (rule apply_transform_unregistered)
  with kv traverse_Inl [of "(k, v)" qs "apply_transform m" "KeyError k"] show ?thesis
    by (auto simp: merge_transformed_def)
qed

lemma transform_parameters_unregistered:
  assumes "parameters m = Some P" and "k \<in> set (keys qs)" and "k \<notin> name ` set (parameters_list P)"
  shows "\<exists>e. transform_parameters m qs = Inl e"
proof (cases "list_parameters qs")
  case Nil
  with merge_transformed_unregistered [OF assms] show ?thesis
    by (simp add: transform_parameters_def)
next
  case (Cons a rest)
  obtain k0 first where a: "a = (k0, first)" by (cases a)
  let ?full = "full_list_parameters (length first) (single_parameters qs) (list_parameters qs)"
  have "k \<in> set (keys ?full)" using assms(2) by (simp add: keys_full_list_parameters)
  from merge_transformed_unregistered [OF assms(1) this assms(3)]
  show ?thesis
    by (auto simp: transform_parameters_def Cons a)
qed

lemma transform_parameters_table_cong:
  assumes "transformation_table m' = transformation_table m"
  shows "transform_parameters m' = transform_parameters m"
proof -
  from assms have "apply_transform m' = apply_transform m"
    by (intro ext) (simp add: apply_transform_def)
  then have h: "merge_transformed m' = merge_transformed m"
    by (intro ext) (simp add: merge_transformed_def)
  show ?thesis
    by (intro ext) (simp only: transform_parameters_def h)
qed

section \<open>Facts about the orchestrator\<close>







lemma length_unnested_descendants: "length (unnested_descendants t) = count_nodes t"
proof (induction t)
  case (ImpactTreeNode n props par cs)
  then have h: "map (length \<circ> unnested_descendants) cs = map count_nodes cs"
    by (intro map_cong) simp_all
  have "length (concat (map unnested_descendants cs))
        = sum_list (map (length \<circ> unnested_descendants) cs)"
    by (simp add: length_concat comp_def)
  also have "\<dots> = sum_list (map count_nodes cs)" by (simp only: h)
  finally show ?case by simp
qed

lemma traverse_nth:
  assumes "traverse f xs = Inr ys"
  shows "length ys = length xs \<and> (\<forall>i < length xs. f (xs ! i) = Inr (ys ! i))"
proof -
  from assms have m: "map f xs = map Inr ys" by (simp add: traverse_Inr_iff)
  then have l: "length ys = length xs" by (metis length_map)
  have "f (xs ! i) = Inr (ys ! i)" if "i < length xs" for i
    using that m l by (metis nth_map)
  with l show ?thesis by blast
qed

lemma node_record_Inr:
  assumes "node_record env tp bp nd = Inr r"
  shows "ns_name r = node_name nd \<and> ns_properties r = properties nd
       \<and> ns_parent r = (case parent nd of None \<Rightarrow> '''' | Some p \<Rightarrow> p)
       \<and> compute env nd tp (Some (bp \<noteq> None)) = Inr (ns_lcia_scores r)"
  using assms by (auto simp: node_record_def split: sum.splits)

section \<open>Facts about the sensitivity analyzer\<close>


lemma s1_records_Inr:
  assumes "s1_records env P nm (meth, sc) = Inr rs"
  shows "\<exists>s1. analyze env (sobol_problem P) sc True = Inr s1
           \<and> length s1 \<le> length (names (sobol_problem P))
           \<and> rs = map (\<lambda>i. \<lparr>node = nm, method_name = meth,
                              parameter = names (sobol_problem P) ! i, sobol_s1 = s1 ! i\<rparr>)
                      [0..<length s1]"
proof -
  let ?N = "length (names (sobol_problem P))"
  from assms obtain s1 where s1: "analyze env (sobol_problem P) sc True = Inr s1"
    by (auto simp: s1_records_def split: sum.splits)
  let ?g = "\<lambda>i. \<lparr>node = nm, method_name = meth,
                  parameter = names (sobol_problem P) ! i, sobol_s1 = s1 ! i\<rparr>"
  let ?f = "\<lambda>i. if i < ?N then Inr (?g i) else Inl IndexError"
  from assms s1 have t: "traverse ?f [0..<length s1] = Inr rs"
    by (simp add: s1_records_def)
  from traverse_nth [OF t] have l: "length rs = length s1" by simp
  have b: "i < ?N \<and> rs ! i = ?g i" if "i < length s1" for i
  proof -
    from traverse_nth [OF t] that have "?f ([0..<length s1] ! i) = Inr (rs ! i)" by simp
    with that have "?f i = Inr (rs ! i)" by (simp cong: if_cong)
    then show ?thesis by (auto split: if_splits)
  qed
  have "length s1 \<le> ?N"
  proof (cases "length s1")
    case 0
    then show ?thesis by simp
  next
    case (Suc k)
    with b [of k] show ?thesis by simp
  qed
  moreover have "rs = map ?g [0..<length s1]"
    using l b by (intro nth_equalityI) simp_all
  ultimately show ?thesis using s1 by blast
qed

lemma unit_records_Inr:
  assumes "unit_records env P nm lcia = Inr recs"
  shows "\<exists>rss. length rss = length (scores lcia)
           \<and> (\<forall>j < length (scores lcia). s1_records env P nm (scores lcia ! j) = Inr (rss ! j))
           \<and> recs = concat rss"
proof -
  from assms obtain rss where t: "traverse (s1_records env P nm) (scores lcia) = Inr rss"
    and r: "recs = concat rss"
    by (auto simp: unit_records_def split: sum.splits)
  from traverse_nth [OF t] r show ?thesis by blast
qed


lemma unit_records_member:
  assumes "unit_records env P nm lcia = Inr recs" and "r \<in> set recs"
  shows "\<exists>meth sc s1 i. (meth, sc) \<in> set (scores lcia)
           \<and> analyze env (sobol_problem P) sc True = Inr s1
           \<and> i < length s1 \<and> i < length (names (sobol_problem P))
           \<and> r = \<lparr>node = nm, method_name = meth,
                   parameter = names (sobol_problem P) ! i, sobol_s1 = s1 ! i\<rparr>"
proof -
  from unit_records_Inr [OF assms(1)] obtain rss where l: "length rss = length (scores lcia)"
    and s: "\<forall>j < length (scores lcia). s1_records env P nm (scores lcia ! j) = Inr (rss ! j)"
    and rc: "recs = concat rss" by blast
  from assms(2) rc obtain rs where rs: "rs \<in> set rss" "r \<in> set rs" by auto
  from rs(1) obtain j where j: "j < length rss" "rs = rss ! j" by (metis in_set_conv_nth)
  obtain meth sc where ms: "scores lcia ! j = (meth, sc)" by (cases "scores lcia ! j")
  from j l ms have mem: "(meth, sc) \<in> set (scores lcia)" by (metis nth_mem)
  from s [rule_format, of j] j l ms have "s1_records env P nm (meth, sc) = Inr rs" by simp
  from s1_records_Inr [OF this] obtain s1
    where s1: "analyze env (sobol_problem P) sc True = Inr s1"
      "length s1 \<le> length (names (sobol_problem P))"
      "rs = map (\<lambda>i. \<lparr>node = nm, method_name = meth,
                       parameter = names (sobol_problem P) ! i, sobol_s1 = s1 ! i\<rparr>)
               [0..<length s1]" by blast
  from rs(2) s1(3) obtain i where "i < length s1"
    "r = \<lparr>node = nm, method_name = meth,
          parameter = names (sobol_problem P) ! i, sobol_s1 = s1 ! i\<rparr>" by auto
  with s1(1,2) mem show ?thesis by (intro exI [of _ meth] exI [of _ sc] exI [of _ s1] exI [of _ i]) simp
qed


lemma get_sobol_s1_indices_Inr:
  assumes "get_sobol_s1_indices env m n all_nodes = Inr recs" and "parameters m = Some P"
  shows "\<exists>drawn samples.
           sobol_draw P n = Inr drawn \<and> draw_to_distrib P drawn = Inr samples
         \<and> (if all_nodes
            then \<exists>nss rss. get_nodes_scores env m None samples = Inr nss
                   \<and> length rss = length nss
                   \<and> (\<forall>k < length nss.
                        unit_records env P (ns_name (nss ! k)) (ns_lcia_scores (nss ! k)) = Inr (rss ! k))
                   \<and> recs = concat rss
            else \<exists>lcia t. get_scores env m samples = Inr lcia \<and> tree m = Some t
                   \<and> unit_records env P (node_name t) lcia = Inr recs)"
proof -
  from assms obtain drawn where d: "sobol_draw P n = Inr drawn"
    by (auto simp: get_sobol_s1_indices_def split: sum.splits)
  from assms d obtain samples where s: "draw_to_distrib P drawn = Inr samples"
    by (auto simp: get_sobol_s1_indices_def split: sum.splits)
  show ?thesis
  proof (cases all_nodes)
    case True
    with assms d s obtain nss where nss: "get_nodes_scores env m None samples = Inr nss"
      by (auto simp: get_sobol_s1_indices_def split: sum.splits)
    with assms d s True obtain rss
      where t: "traverse (\<lambda>ns. unit_records env P (ns_name ns) (ns_lcia_scores ns)) nss = Inr rss"
        and r: "recs = concat rss"
      by (auto simp: get_sobol_s1_indices_def split: sum.splits)
    from traverse_nth [OF t] nss r d s True show ?thesis by auto
  next
    case False
    with assms d s obtain lcia where l: "get_scores env m samples = Inr lcia"
      by (auto simp: get_sobol_s1_indices_def split: sum.splits)
    with assms d s False obtain t where "tree m = Some t"
      "unit_records env P (node_name t) lcia = Inr recs"
      by (auto simp: get_sobol_s1_indices_def split: option.splits)
    with l d s False show ?thesis by auto
  qed
qed


lemma get_sobol_s1_indices_cong:
  assumes "compute env' = compute env"
    and "combine_by_property env' = combine_by_property env"
    and "\<forall>problem y. analyze env' problem y True = analyze env problem y True"
  shows "get_sobol_s1_indices env' m n all_nodes = get_sobol_s1_indices env m n all_nodes"
proof -
  have "s1_records env' = s1_records env"
    by (intro ext) (simp only: s1_records_def assms(3))
  then have u: "unit_records env' = unit_records env"
    by (intro ext) (simp only: unit_records_def)
  have g: "get_scores env' = get_scores env"
    by (intro ext) (simp only: get_scores_def assms(1))
  have "node_record env' = node_record env"
    by (intro ext) (simp only: node_record_def assms(1))
  then have ns: "get_nodes_scores env' = get_nodes_scores env"
    by (intro ext) (simp only: get_nodes_scores_def assms(2))
  show ?thesis
    by (simp only: get_sobol_s1_indices_def u g ns)
qed

section \<open>Facts about the store\<close>

lemma self_fields_new_dict: "self_fields (new_dict s d) = self_fields s"
  by (simp add: new_dict_def)

lemma return_new_frame:
  "\<exists>new. fst (return_new s r) = s\<lparr>dict_heap := dict_heap s @ new\<rparr>
     \<and> (case r of
           Inl e \<Rightarrow> snd (return_new s r) = Inl e
         | Inr d \<Rightarrow> snd (return_new s r) = Inr (length (dict_heap s))
                   \<and> new = [d])"
proof (cases r)
  case (Inl e)
  then show ?thesis by (intro exI [of _ "[]"]) (simp add: return_new_def)
next
  case (Inr d)
  then show ?thesis by (intro exI [of _ "[d]"]) (simp add: return_new_def new_dict_def)
qed

lemma transform_parameters_st_frame:
  "\<exists>new. fst (transform_parameters_st s a) = s\<lparr>dict_heap := dict_heap s @ new\<rparr>
     \<and> (case transform_parameters (self_fields s) (dict_heap s ! a) of
           Inl e \<Rightarrow> snd (transform_parameters_st s a) = Inl e
         | Inr d \<Rightarrow> (\<exists>r. snd (transform_parameters_st s a) = Inr r
                     \<and> length (dict_heap s) \<le> r \<and> r < length (dict_heap s @ new)
                     \<and> (dict_heap s @ new) ! r = d))"
proof -
  let ?ps = "dict_heap s ! a"
  let ?lp = "list_parameters ?ps" and ?sp = "single_parameters ?ps"
  let ?s1 = "new_dict s (map (\<lambda>(n, xs). (n, Batch xs)) ?lp)"
  let ?s2 = "new_dict ?s1 (map (\<lambda>(n, x). (n, Single x)) ?sp)"
  have s2: "?s2 = s\<lparr>dict_heap := dict_heap s @ [map (\<lambda>(n, xs). (n, Batch xs)) ?lp,
                                                  map (\<lambda>(n, x). (n, Single x)) ?sp]\<rparr>"
    by (simp add: new_dict_def)
  have f2: "self_fields ?s2 = self_fields s" by (simp add: new_dict_def)
  show ?thesis
  proof (cases ?lp)
    case Nil
    let ?r = "merge_transformed (self_fields s) ?ps"
    have st: "transform_parameters_st s a = return_new ?s2 ?r"
      by (simp add: transform_parameters_st_def Nil self_fields_new_dict Let_def)
    have tp: "transform_parameters (self_fields s) ?ps = ?r"
      by (simp add: transform_parameters_def Nil)
    from return_new_frame [of ?s2 ?r] obtain new
      where n: "fst (return_new ?s2 ?r) = ?s2\<lparr>dict_heap := dict_heap ?s2 @ new\<rparr>"
        "case ?r of Inl e \<Rightarrow> snd (return_new ?s2 ?r) = Inl e
         | Inr d \<Rightarrow> snd (return_new ?s2 ?r) = Inr (length (dict_heap ?s2)) \<and> new = [d]"
      by blast
    show ?thesis
      using n by (intro exI [of _ "[map (\<lambda>(n, xs). (n, Batch xs)) ?lp,
                                     map (\<lambda>(n, x). (n, Single x)) ?sp] @ new"])
        (auto simp: st tp s2 nth_append split: sum.splits)
  next
    case (Cons p rest)
    obtain k first where p: "p = (k, first)" by (cases p)
    show ?thesis
    proof (cases "fold min (map (\<lambda>(_, xs). length xs) rest) (length first)
                  \<noteq> fold max (map (\<lambda>(_, xs). length xs) rest) (length first)")
      case True
      have st: "transform_parameters_st s a = (?s2, Inl AssertionError)"
        using True by (simp add: transform_parameters_st_def Cons p Let_def)
      have tp: "transform_parameters (self_fields s) ?ps = Inl AssertionError"
        using True by (simp add: transform_parameters_def Cons p)
      show ?thesis
        by (intro exI [of _ "[map (\<lambda>(n, xs). (n, Batch xs)) ?lp,
                               map (\<lambda>(n, x). (n, Single x)) ?sp]"])
          (simp add: st tp s2)
    next
      case False
      let ?full = "full_list_parameters (length first) ?sp ?lp"
      let ?s3 = "new_dict ?s2 ?full"
      let ?r = "merge_transformed (self_fields s) ?full"
      have s3: "?s3 = s\<lparr>dict_heap := dict_heap s @ [map (\<lambda>(n, xs). (n, Batch xs)) ?lp,
                                                  map (\<lambda>(n, x). (n, Single x)) ?sp, ?full]\<rparr>"
        by (simp add: new_dict_def)
      have f3: "self_fields ?s3 = self_fields s" by (simp add: new_dict_def)
      have st: "transform_parameters_st s a = return_new ?s3 ?r"
        using False by (simp add: transform_parameters_st_def Cons p Let_def self_fields_new_dict)
      have tp: "transform_parameters (self_fields s) ?ps = ?r"
        using False by (simp add: transform_parameters_def Cons p)
      from return_new_frame [of ?s3 ?r] obtain new
        where n: "fst (return_new ?s3 ?r) = ?s3\<lparr>dict_heap := dict_heap ?s3 @ new\<rparr>"
          "case ?r of Inl e \<Rightarrow> snd (return_new ?s3 ?r) = Inl e
           | Inr d \<Rightarrow> snd (return_new ?s3 ?r) = Inr (length (dict_heap ?s3)) \<and> new = [d]"
        by blast
      show ?thesis
        using n by (intro exI [of _ "[map (\<lambda>(n, xs). (n, Batch xs)) ?lp,
                                       map (\<lambda>(n, x). (n, Single x)) ?sp, ?full] @ new"])
          (auto simp: st tp s3 nth_append split: sum.splits)
    qed
  qed
qed

text \<open>The definitions to unfold when the model is run on the sample.\<close>

lemmas sample_eval = transform_parameters_def list_parameters_def single_parameters_def
  dict_of_items_def dict_set_def full_list_parameters_def merge_transformed_def
  apply_transform_def transformation_table_def dict_get_def sample_model_def sample_params_def
  float_transform_def enum_transform_def indicator_def merged_parameters_def
  get_missing_parameter_names_def get_default_values_def keys_def

section \<open>Properties of the transform engine\<close>



text \<open>
  Claim C2. When two lists of the input differ in length, the call ends with the
  failed assertion, whatever the model: no mapping is returned.
\<close>

theorem transform_parameters_unequal_lengths_fatal:
  assumes "distinct (keys ps)"
    and "(a, Batch xs) \<in> set ps" and "(b, Batch ys) \<in> set ps"
    and "length xs \<noteq> length ys"
  shows "transform_parameters m ps = Inl AssertionError"
  using assms by (rule unequal_lengths_branch)

text \<open>The specification's own example, \<^verbatim>\<open>{a: [1, 2, 3], b: [1, 2]}\<close>.\<close>

theorem transform_parameters_unequal_lengths_fatal_witness:
  "distinct (keys [(''a'', Batch [Num 1, Num 2, Num 3]), (''b'', Batch [Num 1, Num 2])])
   \<and> transform_parameters sample_model
        [(''a'', Batch [Num 1, Num 2, Num 3]), (''b'', Batch [Num 1, Num 2])]
      = Inl AssertionError"
  using transform_parameters_unequal_lengths_fatal [of "[(''a'', Batch [Num 1, Num 2, Num 3]), (''b'', Batch [Num 1, Num 2])]"
      "''a''" "[Num 1, Num 2, Num 3]" "''b''" "[Num 1, Num 2]" sample_model]
  by (simp add: keys_def)

text \<open>
  Claim C5, as amended. A list of length 1 beside a longer list is not broadcast: the
  call ends with the failed assertion, like any two lists of different lengths. A
  list of length 1 is accepted when every list of the input has length 1, and then
  each single value \<open>y\<close> is transformed as the one-element list \<open>[y]\<close>.
\<close>

theorem length_one_batch_needs_all_batches_of_length_one:
  "(distinct (keys ps) \<and> (a, Batch [x]) \<in> set ps \<and> (b, Batch ys) \<in> set ps \<and> 1 < length ys
      \<longrightarrow> transform_parameters m ps = Inl AssertionError)
   \<and> (distinct (keys ps) \<and> (a, Batch [x]) \<in> set ps
        \<and> (\<forall>n xs. (n, Batch xs) \<in> set ps \<longrightarrow> length xs = 1)
      \<longrightarrow> transform_parameters m ps =
            merge_transformed m (full_list_parameters 1 (single_parameters ps) (list_parameters ps))
          \<and> (\<forall>n y. (n, Single y) \<in> set ps \<longrightarrow>
                map_of (full_list_parameters 1 (single_parameters ps) (list_parameters ps)) n
                  = Some (Batch [y])))"
proof (intro conjI impI)
  assume h: "distinct (keys ps) \<and> (a, Batch [x]) \<in> set ps \<and> (b, Batch ys) \<in> set ps \<and> 1 < length ys"
  then have "length [x] \<noteq> length ys" by simp
  with h show "transform_parameters m ps = Inl AssertionError"
    using unequal_lengths_branch [of ps a "[x]" b ys m] by blast
next
  assume h: "distinct (keys ps) \<and> (a, Batch [x]) \<in> set ps
        \<and> (\<forall>n xs. (n, Batch xs) \<in> set ps \<longrightarrow> length xs = 1)"
  then show "transform_parameters m ps =
            merge_transformed m (full_list_parameters 1 (single_parameters ps) (list_parameters ps))"
    using common_length_branch [of a "[x]" ps 1 m] by blast
  from h show "\<forall>n y. (n, Single y) \<in> set ps \<longrightarrow>
                map_of (full_list_parameters 1 (single_parameters ps) (list_parameters ps)) n
                  = Some (Batch [y])"
    using full_list_parameters_single [of ps _ _ 1] by simp
qed

text \<open>
  Both halves on the sample model: \<^verbatim>\<open>{a: [1], b: [1, 2]}\<close> is rejected, and
  \<^verbatim>\<open>{p1: [5], p2: "a"}\<close> is transformed with \<open>p2\<close> as \<^verbatim>\<open>["a"]\<close>.
\<close>

theorem length_one_batch_needs_all_batches_of_length_one_witness:
  "transform_parameters sample_model [(''a'', Batch [Num 1]), (''b'', Batch [Num 1, Num 2])]
     = Inl AssertionError
   \<and> transform_parameters sample_model [(''p1'', Batch [Num 5]), (''p2'', Single (Str ''a''))]
     = merge_transformed sample_model
         (full_list_parameters 1
            (single_parameters [(''p1'', Batch [Num 5]), (''p2'', Single (Str ''a''))])
            (list_parameters [(''p1'', Batch [Num 5]), (''p2'', Single (Str ''a''))]))
   \<and> map_of (full_list_parameters 1
            (single_parameters [(''p1'', Batch [Num 5]), (''p2'', Single (Str ''a''))])
            (list_parameters [(''p1'', Batch [Num 5]), (''p2'', Single (Str ''a''))])) ''p2''
     = Some (Batch [Str ''a''])
   \<and> transform_parameters sample_model [(''p1'', Batch [Num 5]), (''p2'', Single (Str ''a''))]
     = Inr [(''p2_a'', Batch [Num 1]), (''p2_b'', Batch [Num 0]), (''p1'', Batch [Num 5])]"
proof -
  let ?ps1 = "[(''a'', Batch [Num 1]), (''b'', Batch [Num 1, Num 2])]"
  let ?ps2 = "[(''p1'', Batch [Num 5]), (''p2'', Single (Str ''a''))]"
  have a: "distinct (keys ?ps1) \<and> (''a'', Batch [Num 1]) \<in> set ?ps1
      \<and> (''b'', Batch [Num 1, Num 2]) \<in> set ?ps1 \<and> 1 < length [Num 1, Num 2 :: scalar]"
    by (simp add: keys_def)
  have b: "distinct (keys ?ps2) \<and> (''p1'', Batch [Num 5]) \<in> set ?ps2
      \<and> (\<forall>n xs. (n, Batch xs) \<in> set ?ps2 \<longrightarrow> length xs = 1)"
    by (simp add: keys_def)
  have s: "(''p2'', Single (Str ''a'')) \<in> set ?ps2" by simp
  from a length_one_batch_needs_all_batches_of_length_one [of ?ps1 "''a''" "Num 1" "''b''" "[Num 1, Num 2]" sample_model]
  have 1: "transform_parameters sample_model ?ps1 = Inl AssertionError" by blast
  from b length_one_batch_needs_all_batches_of_length_one [of ?ps2 "''p1''" "Num 5" _ _ sample_model]
  have 2: "transform_parameters sample_model ?ps2 =
            merge_transformed sample_model (full_list_parameters 1 (single_parameters ?ps2) (list_parameters ?ps2))
          \<and> (\<forall>n y. (n, Single y) \<in> set ?ps2 \<longrightarrow>
                map_of (full_list_parameters 1 (single_parameters ?ps2) (list_parameters ?ps2)) n
                  = Some (Batch [y]))" by blast
  with s have 3: "map_of (full_list_parameters 1 (single_parameters ?ps2) (list_parameters ?ps2)) ''p2''
     = Some (Batch [Str ''a''])" by blast
  have 4: "transform_parameters sample_model ?ps2
     = Inr [(''p2_a'', Batch [Num 1]), (''p2_b'', Batch [Num 0]), (''p1'', Batch [Num 5])]"
    by (simp add: sample_eval)
  from 1 2 3 4 show ?thesis by blast
qed

text \<open>
  Claim C5 as it is written fails: with \<open>p1\<close> a list of length 1 and \<open>p2\<close> a list of
  length 3 the call does not succeed.
\<close>

theorem length_one_batch_with_longer_batch_counterexample:
  "transform_parameters sample_model
     [(''p1'', Batch [Num 5]), (''p2'', Batch [Str ''a'', Str ''b'', Str ''a''])]
   = Inl AssertionError"
  by (simp add: transform_parameters_def list_parameters_def single_parameters_def dict_of_items_def
      dict_set_def)

text \<open>
  Claim C6. When no value of the input is a list and the call returns \<open>r\<close>, there is
  one table per input entry, in the input's order, each the result of that
  parameter's registered transform on its value, and \<open>r\<close> is filled from their items
  in that order: its keys are distinct and are the union of the tables' keys, and a
  key holds the value of the last table that has it.
\<close>

theorem scalar_only_transform_is_ordered_merge:
  assumes "\<forall>n xs. (n, Batch xs) \<notin> set ps"
    and "transform_parameters m ps = Inr r"
  shows "\<exists>tables. map (apply_transform m) ps = map Inr tables
           \<and> (\<forall>i < length ps. \<exists>x. snd (ps ! i) = Single x
                 \<and> (\<forall>P. parameters m = Some P \<longrightarrow>
                       (\<exists>p \<in> set (parameters_list P).
                          name p = fst (ps ! i) \<and> transform p (Single x) = Inr (tables ! i))))
           \<and> r = dict_of_items (concat tables)
           \<and> distinct (keys r)
           \<and> set (keys r) = (\<Union>t \<in> set tables. set (keys t))
           \<and> map_of r = map_of (rev (concat tables))
           \<and> (\<forall>i k v. i < length tables \<and> map_of (tables ! i) k = Some v \<and> distinct (keys (tables ! i))
                 \<and> (\<forall>j. i < j \<and> j < length tables \<longrightarrow> k \<notin> set (keys (tables ! j)))
               \<longrightarrow> map_of r k = Some v)"
proof -
  from assms(1) have "list_parameters ps = []" by (simp add: list_parameters_Nil_iff)
  with assms(2) have "merge_transformed m ps = Inr r" by (simp add: transform_parameters_def)
  then obtain tables where t: "traverse (apply_transform m) ps = Inr tables"
    and r: "r = dict_of_items (concat tables)"
    by (auto simp: merge_transformed_def split: sum.splits)
  from t have 1: "map (apply_transform m) ps = map Inr tables" by (simp add: traverse_Inr_iff)
  have 2: "\<forall>i < length ps. \<exists>x. snd (ps ! i) = Single x
                 \<and> (\<forall>P. parameters m = Some P \<longrightarrow>
                       (\<exists>p \<in> set (parameters_list P).
                          name p = fst (ps ! i) \<and> transform p (Single x) = Inr (tables ! i)))"
  proof (intro allI impI)
    fix i
    assume i: "i < length ps"
    obtain n v where nv: "ps ! i = (n, v)" by (cases "ps ! i")
    with i have "(n, v) \<in> set ps" by (metis nth_mem)
    with assms(1) obtain x where x: "v = Single x" by (cases v) auto
    from traverse_nth [OF t] i have "apply_transform m (ps ! i) = Inr (tables ! i)" by blast
    then have a: "apply_transform m (n, v) = Inr (tables ! i)" by (simp only: nv)
    have "\<forall>P. parameters m = Some P \<longrightarrow>
            (\<exists>p \<in> set (parameters_list P). name p = n \<and> transform p v = Inr (tables ! i))"
      using apply_transform_registered [OF a] by blast
    with x nv show "\<exists>x. snd (ps ! i) = Single x
                 \<and> (\<forall>P. parameters m = Some P \<longrightarrow>
                       (\<exists>p \<in> set (parameters_list P).
                          name p = fst (ps ! i) \<and> transform p (Single x) = Inr (tables ! i)))"
      by simp
  qed
  have 3: "distinct (keys r)" by (simp add: r distinct_dict_of_items)
  have 4: "set (keys r) = (\<Union>t \<in> set tables. set (keys t))"
    unfolding r keys_dict_of_items by (auto simp: keys_def)
  have 5: "map_of r = map_of (rev (concat tables))" by (simp add: r map_of_dict_of_items)
  have 6: "\<forall>i k v. i < length tables \<and> map_of (tables ! i) k = Some v \<and> distinct (keys (tables ! i))
                 \<and> (\<forall>j. i < j \<and> j < length tables \<longrightarrow> k \<notin> set (keys (tables ! j)))
               \<longrightarrow> map_of r k = Some v"
  proof (intro allI impI)
    fix i k v
    assume "i < length tables \<and> map_of (tables ! i) k = Some v \<and> distinct (keys (tables ! i))
         \<and> (\<forall>j. i < j \<and> j < length tables \<longrightarrow> k \<notin> set (keys (tables ! j)))"
    then show "map_of r k = Some v"
      using map_of_rev_concat_last [of i tables k v] by (simp add: 5 keys_def)
  qed
  show ?thesis by (intro exI [of _ tables] conjI 1 2 r 3 4 5 6)
qed

text \<open>The sample model on \<^verbatim>\<open>{p1: 5, p2: "a"}\<close>.\<close>

theorem scalar_only_transform_is_ordered_merge_witness:
  "transform_parameters sample_model [(''p1'', Single (Num 5)), (''p2'', Single (Str ''a''))]
     = Inr [(''p1'', Single (Num 5)), (''p2_a'', Single (Num 1)), (''p2_b'', Single (Num 0))]
   \<and> (\<exists>tables. map (apply_transform sample_model) [(''p1'', Single (Num 5)), (''p2'', Single (Str ''a''))]
                  = map Inr tables
        \<and> [(''p1'', Single (Num 5)), (''p2_a'', Single (Num 1)), (''p2_b'', Single (Num 0))]
            = dict_of_items (concat tables)
        \<and> {''p1'', ''p2_a'', ''p2_b''} = (\<Union>t \<in> set tables. set (keys t)))"
proof -
  let ?ps = "[(''p1'', Single (Num 5)), (''p2'', Single (Str ''a''))]"
  let ?r = "[(''p1'', Single (Num 5)), (''p2_a'', Single (Num 1)), (''p2_b'', Single (Num 0))]"
  have h1: "\<forall>n xs. (n, Batch xs) \<notin> set ?ps" by simp
  have h2: "transform_parameters sample_model ?ps = Inr ?r" by (simp add: sample_eval)
  from scalar_only_transform_is_ordered_merge [OF h1 h2] obtain tables
    where "map (apply_transform sample_model) ?ps = map Inr tables"
      "?r = dict_of_items (concat tables)" "set (keys ?r) = (\<Union>t \<in> set tables. set (keys t))"
    by blast
  moreover have "set (keys ?r) = {''p1'', ''p2_a'', ''p2_b''}" by (simp add: keys_def)
  ultimately show ?thesis using h2 by (metis (lifting))
qed

section \<open>Properties of the score orchestrator\<close>

text \<open>
  Claim C9. When the merged mapping of a call holds a name that no parameter of the
  model declares, \<^verbatim>\<open>transform_parameters\<close> ends with an error, and both
  \<^verbatim>\<open>get_scores\<close> and \<^verbatim>\<open>get_nodes_scores\<close> end with that same error whatever the
  tree and whatever its \<^verbatim>\<open>compute\<close> would do: the tree is not consulted.
\<close>

theorem unknown_parameter_name_fails_before_compute:
  assumes "parameters m = Some P"
    and "k \<in> set (keys (merged_parameters P params))"
    and "k \<notin> name ` set (parameters_list P)"
  shows "\<exists>e. transform_parameters m (merged_parameters P params) = Inl e
           \<and> (\<forall>env t. get_scores env (m\<lparr>tree := t\<rparr>) params = Inl e)
           \<and> (\<forall>env t by_property. get_nodes_scores env (m\<lparr>tree := t\<rparr>) by_property params = Inl e)"
proof -
  from transform_parameters_unregistered [OF assms] obtain e
    where e: "transform_parameters m (merged_parameters P params) = Inl e" ..
  have tp: "transform_parameters (m\<lparr>tree := t\<rparr>) = transform_parameters m" for t
    by (rule transform_parameters_table_cong) (simp add: transformation_table_def)
  have "get_scores env (m\<lparr>tree := t\<rparr>) params = Inl e" for env t
    using assms(1) e by (simp add: get_scores_def tp)
  moreover have "get_nodes_scores env (m\<lparr>tree := t\<rparr>) by_property params = Inl e" for env t by_property
    using assms(1) e by (simp add: get_nodes_scores_def tp)
  ultimately show ?thesis using e by blast
qed

text \<open>The sample model called with the undeclared name \<open>zz\<close>.\<close>

theorem unknown_parameter_name_fails_before_compute_witness:
  "transform_parameters sample_model
      (merged_parameters sample_params [(''p1'', Single (Num 1)), (''zz'', Single (Str ''a''))])
     = Inl (KeyError ''zz'')
   \<and> get_scores sample_env sample_model [(''p1'', Single (Num 1)), (''zz'', Single (Str ''a''))]
     = Inl (KeyError ''zz'')
   \<and> get_nodes_scores sample_env sample_model None [(''p1'', Single (Num 1)), (''zz'', Single (Str ''a''))]
     = Inl (KeyError ''zz'')"
proof -
  let ?ps = "[(''p1'', Single (Num 1)), (''zz'', Single (Str ''a''))]"
  have h1: "parameters sample_model = Some sample_params" by (simp add: sample_model_def)
  have h2: "''zz'' \<in> set (keys (merged_parameters sample_params ?ps))"
    by (simp add: merged_parameters_def get_missing_parameter_names_def get_default_values_def
        dict_of_items_def dict_set_def keys_def sample_params_def)
  have h3: "''zz'' \<notin> name ` set (parameters_list sample_params)"
    by (simp add: sample_params_def)
  from unknown_parameter_name_fails_before_compute [OF h1 h2 h3] obtain e
    where e: "transform_parameters sample_model (merged_parameters sample_params ?ps) = Inl e"
      "\<forall>env t. get_scores env (sample_model\<lparr>tree := t\<rparr>) ?ps = Inl e"
      "\<forall>env t by_property. get_nodes_scores env (sample_model\<lparr>tree := t\<rparr>) by_property ?ps = Inl e"
    by blast
  have "transform_parameters sample_model (merged_parameters sample_params ?ps) = Inl (KeyError ''zz'')"
    by (simp add: sample_eval)
  with e(1) have ez: "e = KeyError ''zz''" by simp
  have sm: "sample_model\<lparr>tree := Some sample_tree\<rparr> = sample_model" by (simp add: sample_model_def)
  from e(2) have "get_scores sample_env (sample_model\<lparr>tree := Some sample_tree\<rparr>) ?ps = Inl e" by blast
  moreover from e(3) have "get_nodes_scores sample_env (sample_model\<lparr>tree := Some sample_tree\<rparr>) None ?ps = Inl e"
    by blast
  ultimately show ?thesis using e(1) by (simp add: sm ez)
qed



text \<open>
  Claim C7. When \<^verbatim>\<open>get_nodes_scores\<close> returns, the list built by lines 240 to 250
  has one record per node of \<^verbatim>\<open>unnested_descendants\<close>, as many as the tree has
  nodes and in the same order; the record of a node carries its name and
  properties, its parent's name or the empty string when it has no parent, and the
  scores of that node's \<^verbatim>\<open>compute\<close> called with \<^verbatim>\<open>direct_impacts\<close> true exactly when
  \<^verbatim>\<open>by_property\<close> is given. Without \<^verbatim>\<open>by_property\<close> this list is the result; with it
  the result is what \<^verbatim>\<open>combine_by_property\<close> makes of this list.
\<close>

theorem get_nodes_scores_one_record_per_node:
  assumes "get_nodes_scores env m by_property params = Inr result"
  shows "\<exists>P t tp recs.
           parameters m = Some P \<and> tree m = Some t
         \<and> transform_parameters m (merged_parameters P params) = Inr tp
         \<and> length recs = length (unnested_descendants t)
         \<and> length recs = count_nodes t
         \<and> (\<forall>i < length recs.
              ns_name (recs ! i) = node_name (unnested_descendants t ! i)
            \<and> ns_properties (recs ! i) = properties (unnested_descendants t ! i)
            \<and> ns_parent (recs ! i)
                = (case parent (unnested_descendants t ! i) of None \<Rightarrow> '''' | Some p \<Rightarrow> p)
            \<and> compute env (unnested_descendants t ! i) tp (Some (by_property \<noteq> None))
                = Inr (ns_lcia_scores (recs ! i)))
         \<and> (case by_property of
               None \<Rightarrow> result = recs
             | Some prop \<Rightarrow> combine_by_property env recs prop = Inr result)"
proof -
  from assms obtain P where P: "parameters m = Some P"
    by (auto simp: get_nodes_scores_def split: option.splits)
  from assms P obtain tp where tp: "transform_parameters m (merged_parameters P params) = Inr tp"
    by (auto simp: get_nodes_scores_def split: sum.splits)
  from assms P tp obtain t where t: "tree m = Some t"
    by (auto simp: get_nodes_scores_def split: option.splits)
  from assms P tp t obtain recs
    where recs: "traverse (node_record env tp by_property) (unnested_descendants t) = Inr recs"
    by (auto simp: get_nodes_scores_def split: sum.splits)
  from assms P tp t recs
  have res: "case by_property of None \<Rightarrow> result = recs
             | Some prop \<Rightarrow> combine_by_property env recs prop = Inr result"
    by (auto simp: get_nodes_scores_def split: option.splits)
  from traverse_nth [OF recs]
  have l: "length recs = length (unnested_descendants t)"
    and n: "\<forall>i < length (unnested_descendants t).
              node_record env tp by_property (unnested_descendants t ! i) = Inr (recs ! i)"
    by simp_all
  have f: "\<forall>i < length recs.
              ns_name (recs ! i) = node_name (unnested_descendants t ! i)
            \<and> ns_properties (recs ! i) = properties (unnested_descendants t ! i)
            \<and> ns_parent (recs ! i)
                = (case parent (unnested_descendants t ! i) of None \<Rightarrow> '''' | Some p \<Rightarrow> p)
            \<and> compute env (unnested_descendants t ! i) tp (Some (by_property \<noteq> None))
                = Inr (ns_lcia_scores (recs ! i))"
  proof (intro allI impI)
    fix i
    assume "i < length recs"
    with n l have "node_record env tp by_property (unnested_descendants t ! i) = Inr (recs ! i)"
      by simp
    from node_record_Inr [OF this]
    show "ns_name (recs ! i) = node_name (unnested_descendants t ! i)
            \<and> ns_properties (recs ! i) = properties (unnested_descendants t ! i)
            \<and> ns_parent (recs ! i)
                = (case parent (unnested_descendants t ! i) of None \<Rightarrow> '''' | Some p \<Rightarrow> p)
            \<and> compute env (unnested_descendants t ! i) tp (Some (by_property \<noteq> None))
                = Inr (ns_lcia_scores (recs ! i))" .
  qed
  from P t tp l f res length_unnested_descendants [of t] show ?thesis
    by (intro exI [of _ P] exI [of _ t] exI [of _ tp] exI [of _ recs]) simp
qed

text \<open>The sample tree of three nodes, without and with a grouping property.\<close>

theorem get_nodes_scores_one_record_per_node_witness:
  "(\<exists>result. get_nodes_scores sample_env sample_model None [(''p1'', Single (Num 1))] = Inr result
      \<and> length result = count_nodes sample_tree
      \<and> map ns_name result = [''fu'', ''c1'', ''c2'']
      \<and> map ns_parent result = ['''', ''fu'', ''fu''])
   \<and> count_nodes sample_tree = 3
   \<and> get_nodes_scores sample_env sample_model (Some ''phase'') [(''p1'', Single (Num 1))]
      = Inr [\<lparr>ns_name = ''fu'', ns_properties = [(''phase'', ''all'')], ns_parent = '''',
              ns_lcia_scores = \<lparr>scores = [(''GWP'', Single 1)]\<rparr>\<rparr>]"
proof -
  let ?ps = "[(''p1'', Single (Num 1))]"
  let ?r = "[\<lparr>ns_name = ''fu'', ns_properties = [(''phase'', ''all'')], ns_parent = '''',
              ns_lcia_scores = \<lparr>scores = [(''GWP'', Single 1)]\<rparr>\<rparr>,
            \<lparr>ns_name = ''c1'', ns_properties = [(''phase'', ''use'')], ns_parent = ''fu'',
              ns_lcia_scores = \<lparr>scores = [(''GWP'', Single 1)]\<rparr>\<rparr>,
            \<lparr>ns_name = ''c2'', ns_properties = [(''phase'', ''use'')], ns_parent = ''fu'',
              ns_lcia_scores = \<lparr>scores = [(''GWP'', Single 1)]\<rparr>\<rparr>]"
  have h: "get_nodes_scores sample_env sample_model None ?ps = Inr ?r"
    by (simp add: get_nodes_scores_def node_record_def sample_env_def sample_tree_def score_of_def
        sample_eval)
  from get_nodes_scores_one_record_per_node [OF h] obtain P t tp recs where c: "tree sample_model = Some t"
    "length recs = count_nodes t"
    "case (None :: string option) of None \<Rightarrow> ?r = recs
     | Some prop \<Rightarrow> combine_by_property sample_env recs prop = Inr ?r"
    by blast
  from c(3) have "?r = recs" by simp
  with c(1,2) have "length ?r = count_nodes t" "t = sample_tree" by (simp_all add: sample_model_def)
  then have 1: "length ?r = count_nodes sample_tree" by (simp only:)
  have 2: "count_nodes sample_tree = 3" by (simp add: sample_tree_def)
  have 3: "get_nodes_scores sample_env sample_model (Some ''phase'') ?ps = Inr (take 1 ?r)"
    by (simp add: get_nodes_scores_def node_record_def sample_env_def sample_tree_def score_of_def
        sample_eval)
  from h 1 have "\<exists>result. get_nodes_scores sample_env sample_model None ?ps = Inr result
      \<and> length result = count_nodes sample_tree
      \<and> map ns_name result = [''fu'', ''c1'', ''c2'']
      \<and> map ns_parent result = ['''', ''fu'', ''fu'']"
    by (intro exI [of _ ?r]) simp
  with 2 3 show ?thesis by simp
qed

section \<open>Properties of the sensitivity analyzer\<close>



text \<open>
  Claim C8. The analysis is only ever called with \<^verbatim>\<open>calc_second_order=True\<close>: what it
  would do with \<^verbatim>\<open>False\<close> has no bearing on the result. And when the call returns,
  every record is made, for one unit and one method \<open>sc\<close> of its scores, from the
  estimates \<open>s1\<close> that the analysis gave for \<open>sc\<close>: at some position \<open>i\<close> the record
  holds \<open>s1 ! i\<close> as it is, beside the \<open>i\<close>-th name of the problem descriptor.
\<close>

theorem sobol_indices_second_order_and_raw_estimates:
  assumes "get_sobol_s1_indices env m n all_nodes = Inr recs"
    and "parameters m = Some P"
  shows "(\<forall>env'. compute env' = compute env
              \<and> combine_by_property env' = combine_by_property env
              \<and> (\<forall>problem y. analyze env' problem y True = analyze env problem y True)
            \<longrightarrow> get_sobol_s1_indices env' m n all_nodes = Inr recs)
       \<and> (\<exists>drawn samples units.
             sobol_draw P n = Inr drawn \<and> draw_to_distrib P drawn = Inr samples
           \<and> (if all_nodes
              then \<exists>nss. get_nodes_scores env m None samples = Inr nss
                     \<and> units = map (\<lambda>ns. (ns_name ns, ns_lcia_scores ns)) nss
              else \<exists>lcia t. get_scores env m samples = Inr lcia \<and> tree m = Some t
                     \<and> units = [(node_name t, lcia)])
           \<and> (\<forall>r \<in> set recs. \<exists>nm lcia sc s1 i.
                  (nm, lcia) \<in> set units \<and> (method_name r, sc) \<in> set (scores lcia) \<and> node r = nm
                \<and> analyze env (sobol_problem P) sc True = Inr s1
                \<and> i < length s1 \<and> i < length (names (sobol_problem P))
                \<and> parameter r = names (sobol_problem P) ! i
                \<and> sobol_s1 r = s1 ! i))"
proof -
  have A: "\<forall>env'. compute env' = compute env
              \<and> combine_by_property env' = combine_by_property env
              \<and> (\<forall>problem y. analyze env' problem y True = analyze env problem y True)
            \<longrightarrow> get_sobol_s1_indices env' m n all_nodes = Inr recs"
    using get_sobol_s1_indices_cong [of _ env m n all_nodes] assms(1) by simp
  from get_sobol_s1_indices_Inr [OF assms(1,2)] obtain drawn samples
    where d: "sobol_draw P n = Inr drawn" and s: "draw_to_distrib P drawn = Inr samples"
      and br: "if all_nodes
            then \<exists>nss rss. get_nodes_scores env m None samples = Inr nss
                   \<and> length rss = length nss
                   \<and> (\<forall>k < length nss.
                        unit_records env P (ns_name (nss ! k)) (ns_lcia_scores (nss ! k)) = Inr (rss ! k))
                   \<and> recs = concat rss
            else \<exists>lcia t. get_scores env m samples = Inr lcia \<and> tree m = Some t
                   \<and> unit_records env P (node_name t) lcia = Inr recs"
    by blast
  have mem: "\<exists>sc s1 i. (method_name r, sc) \<in> set (scores lcia) \<and> node r = nm
                \<and> analyze env (sobol_problem P) sc True = Inr s1
                \<and> i < length s1 \<and> i < length (names (sobol_problem P))
                \<and> parameter r = names (sobol_problem P) ! i
                \<and> sobol_s1 r = s1 ! i"
    if "unit_records env P nm lcia = Inr rs" and "r \<in> set rs" for nm lcia rs r
  proof -
    from unit_records_member [OF that] obtain meth sc s1 i
      where "(meth, sc) \<in> set (scores lcia)" "analyze env (sobol_problem P) sc True = Inr s1"
        "i < length s1" "i < length (names (sobol_problem P))"
        "r = \<lparr>node = nm, method_name = meth, parameter = names (sobol_problem P) ! i, sobol_s1 = s1 ! i\<rparr>"
      by blast
    then show ?thesis by (intro exI [of _ sc] exI [of _ s1] exI [of _ i]) simp
  qed
  have B: "\<exists>units.
             (if all_nodes
              then \<exists>nss. get_nodes_scores env m None samples = Inr nss
                     \<and> units = map (\<lambda>ns. (ns_name ns, ns_lcia_scores ns)) nss
              else \<exists>lcia t. get_scores env m samples = Inr lcia \<and> tree m = Some t
                     \<and> units = [(node_name t, lcia)])
           \<and> (\<forall>r \<in> set recs. \<exists>nm lcia sc s1 i.
                  (nm, lcia) \<in> set units \<and> (method_name r, sc) \<in> set (scores lcia) \<and> node r = nm
                \<and> analyze env (sobol_problem P) sc True = Inr s1
                \<and> i < length s1 \<and> i < length (names (sobol_problem P))
                \<and> parameter r = names (sobol_problem P) ! i
                \<and> sobol_s1 r = s1 ! i)"
  proof (cases all_nodes)
    case False
    with br obtain lcia t where l: "get_scores env m samples = Inr lcia" and t: "tree m = Some t"
      and u: "unit_records env P (node_name t) lcia = Inr recs" by auto
    have "\<forall>r \<in> set recs. \<exists>nm lc sc s1 i.
                  (nm, lc) \<in> set [(node_name t, lcia)] \<and> (method_name r, sc) \<in> set (scores lc) \<and> node r = nm
                \<and> analyze env (sobol_problem P) sc True = Inr s1
                \<and> i < length s1 \<and> i < length (names (sobol_problem P))
                \<and> parameter r = names (sobol_problem P) ! i
                \<and> sobol_s1 r = s1 ! i"
      using mem [OF u] by simp
    with l t False show ?thesis by (intro exI [of _ "[(node_name t, lcia)]"]) auto
  next
    case True
    with br obtain nss rss where nss: "get_nodes_scores env m None samples = Inr nss"
      and lr: "length rss = length nss"
      and u: "\<forall>k < length nss.
                unit_records env P (ns_name (nss ! k)) (ns_lcia_scores (nss ! k)) = Inr (rss ! k)"
      and r: "recs = concat rss" by auto
    let ?units = "map (\<lambda>ns. (ns_name ns, ns_lcia_scores ns)) nss"
    have "\<forall>x \<in> set recs. \<exists>nm lc sc s1 i.
                  (nm, lc) \<in> set ?units \<and> (method_name x, sc) \<in> set (scores lc) \<and> node x = nm
                \<and> analyze env (sobol_problem P) sc True = Inr s1
                \<and> i < length s1 \<and> i < length (names (sobol_problem P))
                \<and> parameter x = names (sobol_problem P) ! i
                \<and> sobol_s1 x = s1 ! i"
    proof
      fix x
      assume "x \<in> set recs"
      with r obtain rs where "rs \<in> set rss" "x \<in> set rs" by auto
      then obtain k where k: "k < length rss" "x \<in> set (rss ! k)" by (metis in_set_conv_nth)
      with u lr have "unit_records env P (ns_name (nss ! k)) (ns_lcia_scores (nss ! k)) = Inr (rss ! k)"
        by simp
      from mem [OF this k(2)] obtain sc s1 i
        where f: "(method_name x, sc) \<in> set (scores (ns_lcia_scores (nss ! k)))"
          "node x = ns_name (nss ! k)"
          "analyze env (sobol_problem P) sc True = Inr s1"
          "i < length s1" "i < length (names (sobol_problem P))"
          "parameter x = names (sobol_problem P) ! i" "sobol_s1 x = s1 ! i" by blast
      have "(ns_name (nss ! k), ns_lcia_scores (nss ! k)) \<in> set ?units"
        using k(1) lr by (simp add: image_iff) (metis nth_mem)
      with f show "\<exists>nm lc sc s1 i.
                  (nm, lc) \<in> set ?units \<and> (method_name x, sc) \<in> set (scores lc) \<and> node x = nm
                \<and> analyze env (sobol_problem P) sc True = Inr s1
                \<and> i < length s1 \<and> i < length (names (sobol_problem P))
                \<and> parameter x = names (sobol_problem P) ! i
                \<and> sobol_s1 x = s1 ! i"
        by (intro exI [of _ "ns_name (nss ! k)"] exI [of _ "ns_lcia_scores (nss ! k)"]
            exI [of _ sc] exI [of _ s1] exI [of _ i]) simp
    qed
    with nss True show ?thesis by (intro exI [of _ ?units]) auto
  qed
  from B d s have "\<exists>drawn samples units.
             sobol_draw P n = Inr drawn \<and> draw_to_distrib P drawn = Inr samples
           \<and> (if all_nodes
              then \<exists>nss. get_nodes_scores env m None samples = Inr nss
                     \<and> units = map (\<lambda>ns. (ns_name ns, ns_lcia_scores ns)) nss
              else \<exists>lcia t. get_scores env m samples = Inr lcia \<and> tree m = Some t
                     \<and> units = [(node_name t, lcia)])
           \<and> (\<forall>r \<in> set recs. \<exists>nm lcia sc s1 i.
                  (nm, lcia) \<in> set units \<and> (method_name r, sc) \<in> set (scores lcia) \<and> node r = nm
                \<and> analyze env (sobol_problem P) sc True = Inr s1
                \<and> i < length s1 \<and> i < length (names (sobol_problem P))
                \<and> parameter r = names (sobol_problem P) ! i
                \<and> sobol_s1 r = s1 ! i)"
    by blast
  with A show ?thesis by (rule conjI)
qed

text \<open>
  The sample analysis estimates \<open>- 1 / 100\<close> for each name; the records hold that
  negative value, also when the analysis refuses \<^verbatim>\<open>calc_second_order=False\<close>.
\<close>

theorem sobol_indices_second_order_and_raw_estimates_witness:
  "get_sobol_s1_indices
      (sample_env\<lparr>analyze := \<lambda>problem y second.
          if second then analyze sample_env problem y True else Inl (Raised ''first order only'')\<rparr>)
      sample_model 1 False
     = Inr [\<lparr>node = ''fu'', method_name = ''GWP'', parameter = ''p1'', sobol_s1 = - 1 / 100\<rparr>,
            \<lparr>node = ''fu'', method_name = ''GWP'', parameter = ''p2'', sobol_s1 = - 1 / 100\<rparr>]
   \<and> analyze sample_env (sobol_problem sample_params) (Batch [1, 1, 1, 1, 1, 1]) True
     = Inr [- 1 / 100, - 1 / 100]
   \<and> (- 1 / 100 :: real) < 0"
proof -
  let ?rF = "[\<lparr>node = ''fu'', method_name = ''GWP'', parameter = ''p1'', sobol_s1 = - 1 / 100\<rparr>,
            \<lparr>node = ''fu'', method_name = ''GWP'', parameter = ''p2'', sobol_s1 = - 1 / 100\<rparr>]"
  let ?env' = "sample_env\<lparr>analyze := \<lambda>problem y second.
          if second then analyze sample_env problem y True else Inl (Raised ''first order only'')\<rparr>"
  have h2: "parameters sample_model = Some sample_params" by (simp add: sample_model_def)
  have eF: "get_sobol_s1_indices sample_env sample_model 1 False = Inr ?rF"
    by (simp add: get_sobol_s1_indices_def unit_records_def s1_records_def get_scores_def
        get_nodes_scores_def node_record_def sample_env_def sample_tree_def score_of_def sample_eval eval_nat_numeral)
  from sobol_indices_second_order_and_raw_estimates [OF eF h2]
  have "\<forall>env'. compute env' = compute sample_env
              \<and> combine_by_property env' = combine_by_property sample_env
              \<and> (\<forall>problem y. analyze env' problem y True = analyze sample_env problem y True)
            \<longrightarrow> get_sobol_s1_indices env' sample_model 1 False = Inr ?rF"
    by (rule conjunct1)
  then have "compute ?env' = compute sample_env
              \<and> combine_by_property ?env' = combine_by_property sample_env
              \<and> (\<forall>problem y. analyze ?env' problem y True = analyze sample_env problem y True)
            \<longrightarrow> get_sobol_s1_indices ?env' sample_model 1 False = Inr ?rF"
    by (rule spec)
  then have 1: "get_sobol_s1_indices ?env' sample_model 1 False = Inr ?rF" by simp
  have 2: "analyze sample_env (sobol_problem sample_params) (Batch [1, 1, 1, 1, 1, 1]) True
     = Inr [- 1 / 100, - 1 / 100]"
    by (simp add: sample_env_def sample_params_def)
  from 1 2 show ?thesis by simp
qed

section \<open>Properties of the transform engine over the store\<close>

text \<open>
  Claim C10. A call of \<^verbatim>\<open>transform_parameters\<close> on the dict at address \<open>a\<close> leaves
  the fields of the model as they were and leaves every dict that existed before the
  call, the argument among them, with the entries it had; the store only grows. When
  the call returns, the address returned is that of a dict allocated during the
  call, and this dict is the mapping that the store-free definition computes; when
  it raises, it raises the same error.
\<close>

theorem transform_parameters_leaves_argument_and_model_unchanged:
  "self_fields (fst (transform_parameters_st s a)) = self_fields s
   \<and> (\<forall>b < length (dict_heap s).
        dict_heap (fst (transform_parameters_st s a)) ! b = dict_heap s ! b)
   \<and> length (dict_heap s) \<le> length (dict_heap (fst (transform_parameters_st s a)))
   \<and> (case snd (transform_parameters_st s a) of
         Inl e \<Rightarrow> transform_parameters (self_fields s) (dict_heap s ! a) = Inl e
       | Inr r \<Rightarrow> length (dict_heap s) \<le> r
               \<and> r < length (dict_heap (fst (transform_parameters_st s a)))
               \<and> transform_parameters (self_fields s) (dict_heap s ! a)
                   = Inr (dict_heap (fst (transform_parameters_st s a)) ! r))"
proof -
  from transform_parameters_st_frame [of s a] obtain new
    where f: "fst (transform_parameters_st s a) = s\<lparr>dict_heap := dict_heap s @ new\<rparr>"
      and r: "case transform_parameters (self_fields s) (dict_heap s ! a) of
           Inl e \<Rightarrow> snd (transform_parameters_st s a) = Inl e
         | Inr d \<Rightarrow> (\<exists>r. snd (transform_parameters_st s a) = Inr r
                     \<and> length (dict_heap s) \<le> r \<and> r < length (dict_heap s @ new)
                     \<and> (dict_heap s @ new) ! r = d)"
    by blast
  have 1: "self_fields (fst (transform_parameters_st s a)) = self_fields s" by (simp add: f)
  have 2: "\<forall>b < length (dict_heap s).
        dict_heap (fst (transform_parameters_st s a)) ! b = dict_heap s ! b"
    by (simp add: f nth_append)
  have 3: "length (dict_heap s) \<le> length (dict_heap (fst (transform_parameters_st s a)))"
    by (simp add: f)
  have 4: "case snd (transform_parameters_st s a) of
         Inl e \<Rightarrow> transform_parameters (self_fields s) (dict_heap s ! a) = Inl e
       | Inr r \<Rightarrow> length (dict_heap s) \<le> r
               \<and> r < length (dict_heap (fst (transform_parameters_st s a)))
               \<and> transform_parameters (self_fields s) (dict_heap s ! a)
                   = Inr (dict_heap (fst (transform_parameters_st s a)) ! r)"
    using r by (cases "transform_parameters (self_fields s) (dict_heap s ! a)") (auto simp: f)
  show ?thesis by (intro conjI 1 2 3 4)
qed

text \<open>
  The sample model on \<^verbatim>\<open>{p1: [1, 2, 3], p2: "a"}\<close> at address 0: the argument is
  unchanged and the result is the new dict at address 4.
\<close>

theorem transform_parameters_leaves_argument_and_model_unchanged_witness:
  "self_fields (fst (transform_parameters_st
      \<lparr>self_fields = sample_model,
       dict_heap = [[(''p1'', Batch [Num 1, Num 2, Num 3]), (''p2'', Single (Str ''a''))]]\<rparr> 0))
     = sample_model
   \<and> dict_heap (fst (transform_parameters_st
      \<lparr>self_fields = sample_model,
       dict_heap = [[(''p1'', Batch [Num 1, Num 2, Num 3]), (''p2'', Single (Str ''a''))]]\<rparr> 0)) ! 0
     = [(''p1'', Batch [Num 1, Num 2, Num 3]), (''p2'', Single (Str ''a''))]
   \<and> snd (transform_parameters_st
      \<lparr>self_fields = sample_model,
       dict_heap = [[(''p1'', Batch [Num 1, Num 2, Num 3]), (''p2'', Single (Str ''a''))]]\<rparr> 0)
     = Inr 4
   \<and> dict_heap (fst (transform_parameters_st
      \<lparr>self_fields = sample_model,
       dict_heap = [[(''p1'', Batch [Num 1, Num 2, Num 3]), (''p2'', Single (Str ''a''))]]\<rparr> 0)) ! 4
     = [(''p2_a'', Batch [Num 1, Num 1, Num 1]), (''p2_b'', Batch [Num 0, Num 0, Num 0]),
        (''p1'', Batch [Num 1, Num 2, Num 3])]"
proof -
  let ?s = "\<lparr>self_fields = sample_model,
       dict_heap = [[(''p1'', Batch [Num 1, Num 2, Num 3]), (''p2'', Single (Str ''a''))]]\<rparr>"
  note c = transform_parameters_leaves_argument_and_model_unchanged [of ?s 0]
  have e: "snd (transform_parameters_st ?s 0) = Inr 4"
    by (simp add: transform_parameters_st_def return_new_def new_dict_def Let_def sample_eval
        numeral_3_eq_3)
  have t: "transform_parameters sample_model
             [(''p1'', Batch [Num 1, Num 2, Num 3]), (''p2'', Single (Str ''a''))]
    = Inr [(''p2_a'', Batch [Num 1, Num 1, Num 1]), (''p2_b'', Batch [Num 0, Num 0, Num 0]),
        (''p1'', Batch [Num 1, Num 2, Num 3])]"
    by (simp add: sample_eval numeral_3_eq_3)
  from c have 1: "self_fields (fst (transform_parameters_st ?s 0)) = sample_model" by simp
  from c have "\<forall>b < length (dict_heap ?s).
        dict_heap (fst (transform_parameters_st ?s 0)) ! b = dict_heap ?s ! b" by blast
  then have 2: "dict_heap (fst (transform_parameters_st ?s 0)) ! 0
     = [(''p1'', Batch [Num 1, Num 2, Num 3]), (''p2'', Single (Str ''a''))]" by simp
  from c e have "transform_parameters (self_fields ?s) (dict_heap ?s ! 0)
                   = Inr (dict_heap (fst (transform_parameters_st ?s 0)) ! 4)" by simp
  with t have 3: "dict_heap (fst (transform_parameters_st ?s 0)) ! 4
     = [(''p2_a'', Batch [Num 1, Num 1, Num 1]), (''p2_b'', Batch [Num 0, Num 0, Num 0]),
        (''p1'', Batch [Num 1, Num 2, Num 3])]" by simp
  from 1 2 e 3 show ?thesis by (intro conjI)
qed

end
